theory Spec2Isabelle
  imports Main
begin

section \<open>The notes service: data model\<close>

text \<open>
  The repository holds two variants of one HTTP service over a JSON file of notes:
  \<^verbatim>\<open>src/Lab_5.js\<close> and \<^verbatim>\<open>src/unnamed/part_000\<close>. Every handler reads the
  whole file with \<^verbatim>\<open>fs.promises.readFile\<close>, most parse it with
  \<^verbatim>\<open>JSON.parse\<close>, and the mutating ones write the whole array back with
  \<^verbatim>\<open>fs.promises.writeFile(options.cache, JSON.stringify(...))\<close>.

  A value that \<^verbatim>\<open>JSON.parse\<close> can return. Numbers are never inspected by the handlers;
  an object is the list of its own properties in insertion order, a key's first binding
  being its value.
\<close>

datatype jsval =
    JNull
  | JBool bool
  | JNum int
  | JStr string
  | JArr "jsval list"
  | JObj "(string \<times> jsval) list"

text \<open>
  The bytes of the store file, told apart by what \<^verbatim>\<open>JSON.parse\<close> makes of them:
  \<open>NotJSON\<close> is a text the parser rejects, \<open>JSONText v\<close> a text it parses to \<open>v\<close>.
  \<^verbatim>\<open>JSON.stringify\<close> of a parsed value gives a text that parses back to that value.
\<close>

datatype buffer = NotJSON string | JSONText jsval

text \<open>What a promise of the handlers is rejected with, or a callback throws.\<close>

datatype js_error =
    IOError         \<comment> \<open>\<^verbatim>\<open>readFile\<close> or \<^verbatim>\<open>writeFile\<close> rejects\<close>
  | SyntaxError     \<comment> \<open>\<^verbatim>\<open>JSON.parse\<close> throws\<close>
  | TypeError       \<comment> \<open>a property of \<^verbatim>\<open>null\<close> is read, or a missing method is called\<close>
  | HeadersSent     \<comment> \<open>\<^verbatim>\<open>res.type\<close> or \<^verbatim>\<open>res.send\<close> after the response went out\<close>
  | OutsideModel    \<comment> \<open>behaviour this model does not describe\<close>

text \<open>
  The file system as the handlers see it: the content of \<^verbatim>\<open>options.cache\<close>
  (\<open>None\<close> when it cannot be read) and whether a write to it succeeds.
\<close>

record disk =
  cache :: "buffer option"
  writable :: bool

text \<open>The \<^bold>\<open>Note\<close> of the data model, and the JSON the create handler builds for it.\<close>

record Note =
  name :: string
  "text" :: string

definition note_obj :: "Note \<Rightarrow> jsval" where
  "note_obj n = JObj [(''name'', JStr (name n)), (''text'', JStr (text n))]"

definition store_json :: "Note list \<Rightarrow> buffer" where
  "store_json ns = JSONText (JArr (map note_obj ns))"

subsection \<open>Responses and the events of one request\<close>

datatype payload =
    NoBody                  \<comment> \<open>\<^verbatim>\<open>res.end()\<close>\<close>
  | Body "jsval option"     \<comment> \<open>\<^verbatim>\<open>res.send(v)\<close>, \<open>None\<close> for \<^verbatim>\<open>undefined\<close>\<close>
  | Raw buffer              \<comment> \<open>\<^verbatim>\<open>res.send(buf)\<close> of the bytes read\<close>
  | ErrorPage               \<comment> \<open>the page that express writes itself\<close>

record response =
  status :: nat
  ctype :: "string option"  \<comment> \<open>the argument of \<^verbatim>\<open>res.type\<close>, when it is called; html for express's own page\<close>
  body :: payload

datatype event =
    WriteBegin buffer       \<comment> \<open>\<^verbatim>\<open>writeFile\<close> is called with this data\<close>
  | WriteDone               \<comment> \<open>its promise is fulfilled\<close>
  | WriteFailed             \<comment> \<open>its promise is rejected\<close>
  | Respond response        \<comment> \<open>a call of \<^verbatim>\<open>res.end\<close> or \<^verbatim>\<open>res.send\<close> that returns\<close>

text \<open>
  The state of one handler run: the disk, the events so far, and the writes that were
  started without their promise being awaited.
\<close>

record run =
  fsys :: disk
  trace :: "event list"
  pending :: "buffer list"

type_synonym 'a promise = "run \<Rightarrow> (js_error + 'a) \<times> run"

definition resolve :: "'a \<Rightarrow> 'a promise" where
  "resolve x r = (Inr x, r)"

definition reject :: "js_error \<Rightarrow> 'a promise" where
  "reject e r = (Inl e, r)"

definition lift :: "js_error + 'a \<Rightarrow> 'a promise" where
  "lift v r = (v, r)"

text \<open>\<^verbatim>\<open>p.then(f)\<close>, also the sequencing of statements inside one callback.\<close>

definition then_p :: "'a promise \<Rightarrow> ('a \<Rightarrow> 'b promise) \<Rightarrow> 'b promise" where
  "then_p p f r = (case p r of (Inl e, r') \<Rightarrow> (Inl e, r') | (Inr x, r') \<Rightarrow> f x r')"

text \<open>\<^verbatim>\<open>p.catch(h)\<close>.\<close>

definition catch_p :: "'a promise \<Rightarrow> (js_error \<Rightarrow> 'a promise) \<Rightarrow> 'a promise" where
  "catch_p p h r = (case p r of (Inl e, r') \<Rightarrow> h e r' | (Inr x, r') \<Rightarrow> (Inr x, r'))"

subsection \<open>The file system calls\<close>

definition readFile :: "buffer promise" where
  "readFile r = (case cache (fsys r) of None \<Rightarrow> (Inl IOError, r) | Some b \<Rightarrow> (Inr b, r))"

text \<open>
  \<^verbatim>\<open>writeFile\<close> whose promise the handler returns or chains on. A write that fails
  leaves the content as it was; a failure that truncates the file is not modelled.
\<close>

definition writeFile :: "buffer \<Rightarrow> unit promise" where
  "writeFile data r =
     (if writable (fsys r)
      then (Inr (), r\<lparr>fsys := (fsys r)\<lparr>cache := Some data\<rparr>,
                      trace := trace r @ [WriteBegin data, WriteDone]\<rparr>)
      else (Inl IOError, r\<lparr>trace := trace r @ [WriteBegin data, WriteFailed]\<rparr>))"

text \<open>
  \<^verbatim>\<open>writeFile\<close> whose promise the handler drops: the write is started, and the
  statements after it run before it completes.
\<close>

definition writeFile_detached :: "buffer \<Rightarrow> unit promise" where
  "writeFile_detached data r =
     (Inr (), r\<lparr>trace := trace r @ [WriteBegin data], pending := pending r @ [data]\<rparr>)"

definition JSON_parse :: "buffer \<Rightarrow> js_error + jsval" where
  "JSON_parse b = (case b of NotJSON s \<Rightarrow> Inl SyntaxError | JSONText v \<Rightarrow> Inr v)"

definition JSON_stringify :: "jsval \<Rightarrow> buffer" where
  "JSON_stringify v = JSONText v"

subsection \<open>The response object\<close>

fun is_Respond :: "event \<Rightarrow> bool" where
  "is_Respond (Respond q) = True"
| "is_Respond e = False"

definition headersSent :: "run \<Rightarrow> bool" where
  "headersSent r = list_ex is_Respond (trace r)"

text \<open>
  \<^verbatim>\<open>res.status(c).end()\<close>. Neither call throws: on a response that is already
  finished, \<^verbatim>\<open>end\<close> returns without an effect on the wire.
\<close>

definition res_end :: "nat \<Rightarrow> unit promise" where
  "res_end c r =
     (Inr (), r\<lparr>trace := trace r @ [Respond \<lparr>status = c, ctype = None, body = NoBody\<rparr>]\<rparr>)"

text \<open>
  \<^verbatim>\<open>res.status(c).type(t).send(v)\<close> and \<^verbatim>\<open>res.status(c).send(v)\<close>. Setting a
  header after the response went out throws.
\<close>

definition res_send :: "nat \<Rightarrow> string option \<Rightarrow> payload \<Rightarrow> unit promise" where
  "res_send c t v r =
     (if headersSent r then (Inl HeadersSent, r)
      else (Inr (), r\<lparr>trace := trace r @ [Respond \<lparr>status = c, ctype = t, body = v\<rparr>]\<rparr>))"

subsection \<open>Property reads and array methods\<close>

text \<open>
  \<^verbatim>\<open>el.name\<close> and \<^verbatim>\<open>el.text\<close>: reading a property of \<^verbatim>\<open>null\<close> throws; of the
  values of JSON only an object can have an own property of either name.
\<close>

fun get_prop :: "jsval \<Rightarrow> string \<Rightarrow> js_error + jsval option" where
  "get_prop JNull k = Inl TypeError"
| "get_prop (JObj kvs) k = Inr (map_of kvs k)"
| "get_prop v k = Inr None"

text \<open>\<^verbatim>\<open>el.name === n\<close> for a string \<open>n\<close>.\<close>

definition name_is :: "string \<Rightarrow> jsval \<Rightarrow> js_error + bool" where
  "name_is n el = (case get_prop el ''name'' of Inl e \<Rightarrow> Inl e | Inr v \<Rightarrow> Inr (v = Some (JStr n)))"

text \<open>\<^verbatim>\<open>el.name !== n\<close>.\<close>

definition name_is_not :: "string \<Rightarrow> jsval \<Rightarrow> js_error + bool" where
  "name_is_not n el = (case name_is n el of Inl e \<Rightarrow> Inl e | Inr b \<Rightarrow> Inr (\<not> b))"

text \<open>
  \<^verbatim>\<open>obj.k = v\<close> on an object: an existing property keeps its place, a new one goes
  last. The handlers assign only to an element whose \<^verbatim>\<open>name\<close> matched, which is an
  object.
\<close>

fun assign :: "string \<Rightarrow> jsval \<Rightarrow> (string \<times> jsval) list \<Rightarrow> (string \<times> jsval) list" where
  "assign k v [] = [(k, v)]"
| "assign k v (p # ps) = (if fst p = k then (k, v) # ps else p # assign k v ps)"

fun set_prop :: "jsval \<Rightarrow> string \<Rightarrow> jsval \<Rightarrow> jsval" where
  "set_prop (JObj kvs) k v = JObj (assign k v kvs)"
| "set_prop el k v = el"

text \<open>
  \<^verbatim>\<open>Array.prototype.find\<close>, \<^verbatim>\<open>some\<close> and \<^verbatim>\<open>filter\<close> with a callback that may
  throw. \<open>find\<close> returns a reference into the array: the position goes with the element.
\<close>

fun find_from :: "('a \<Rightarrow> js_error + bool) \<Rightarrow> nat \<Rightarrow> 'a list \<Rightarrow> js_error + (nat \<times> 'a) option" where
  "find_from p i [] = Inr None"
| "find_from p i (x # xs) =
     (case p x of Inl e \<Rightarrow> Inl e
      | Inr b \<Rightarrow> if b then Inr (Some (i, x)) else find_from p (Suc i) xs)"

fun some_js :: "('a \<Rightarrow> js_error + bool) \<Rightarrow> 'a list \<Rightarrow> js_error + bool" where
  "some_js p [] = Inr False"
| "some_js p (x # xs) =
     (case p x of Inl e \<Rightarrow> Inl e | Inr b \<Rightarrow> if b then Inr True else some_js p xs)"

fun filter_js :: "('a \<Rightarrow> js_error + bool) \<Rightarrow> 'a list \<Rightarrow> js_error + 'a list" where
  "filter_js p [] = Inr []"
| "filter_js p (x # xs) =
     (case p x of Inl e \<Rightarrow> Inl e
      | Inr b \<Rightarrow> (case filter_js p xs of Inl e \<Rightarrow> Inl e
                 | Inr ys \<Rightarrow> Inr (if b then x # ys else ys)))"

text \<open>
  The method calls on the parsed value: a value of JSON that is not an array has none of
  these methods, and calling one throws.
\<close>

definition array_find :: "(jsval \<Rightarrow> js_error + bool) \<Rightarrow> jsval \<Rightarrow> js_error + (nat \<times> jsval) option" where
  "array_find p notes = (case notes of JArr xs \<Rightarrow> find_from p 0 xs | _ \<Rightarrow> Inl TypeError)"

definition array_some :: "(jsval \<Rightarrow> js_error + bool) \<Rightarrow> jsval \<Rightarrow> js_error + bool" where
  "array_some p notes = (case notes of JArr xs \<Rightarrow> some_js p xs | _ \<Rightarrow> Inl TypeError)"

definition array_filter :: "(jsval \<Rightarrow> js_error + bool) \<Rightarrow> jsval \<Rightarrow> js_error + jsval list" where
  "array_filter p notes = (case notes of JArr xs \<Rightarrow> filter_js p xs | _ \<Rightarrow> Inl TypeError)"

definition array_push :: "jsval \<Rightarrow> jsval \<Rightarrow> js_error + jsval" where
  "array_push notes v = (case notes of JArr xs \<Rightarrow> Inr (JArr (xs @ [v])) | _ \<Rightarrow> Inl TypeError)"

text \<open>The array with the element at a position replaced (an assignment through a reference).\<close>

definition array_set :: "jsval \<Rightarrow> nat \<Rightarrow> jsval \<Rightarrow> jsval" where
  "array_set notes i v = (case notes of JArr xs \<Rightarrow> JArr (xs[i := v]) | _ \<Rightarrow> notes)"

definition array_length :: "jsval \<Rightarrow> nat" where
  "array_length notes = (case notes of JArr xs \<Rightarrow> length xs | _ \<Rightarrow> 0)"

section \<open>The handlers of \<^verbatim>\<open>src/unnamed/part_000\<close>\<close>

text \<open>\<^verbatim>\<open>.catch(() => res.status(500).send("Internal server error"))\<close>\<close>

definition internal_error :: "js_error \<Rightarrow> unit promise" where
  "internal_error e = res_send 500 None (Body (Some (JStr ''Internal server error'')))"

text \<open>\<^verbatim>\<open>app.get("/notes")\<close>\<close>

definition get_notes_part_000 :: "unit promise" where
  "get_notes_part_000 =
     catch_p
       (then_p readFile (\<lambda>notes. res_send 200 (Some ''json'') (Raw notes)))
       internal_error"

text \<open>\<^verbatim>\<open>app.get("/notes/:name")\<close>\<close>

definition get_notes_name_part_000 :: "string \<Rightarrow> unit promise" where
  "get_notes_name_part_000 n =
     catch_p
       (then_p readFile (\<lambda>json_notes.
        then_p (lift (JSON_parse json_notes)) (\<lambda>notes.
        then_p (lift (array_find (name_is n) notes)) (\<lambda>note.
          case note of
            Some (i, el) \<Rightarrow>
              then_p (lift (get_prop el ''text'')) (\<lambda>t. res_send 200 (Some ''text'') (Body t))
          | None \<Rightarrow> res_end 404))))
       internal_error"

text \<open>
  \<^verbatim>\<open>app.put("/notes/:name")\<close>. \<^verbatim>\<open>note.text = req.body\<close> changes the element of
  \<^verbatim>\<open>notes\<close> that \<^verbatim>\<open>find\<close> returned; the request body is the string that
  \<^verbatim>\<open>express.text()\<close> delivers.
\<close>

definition put_notes_name_part_000 :: "string \<Rightarrow> string \<Rightarrow> unit promise" where
  "put_notes_name_part_000 n req_body =
     catch_p
       (then_p readFile (\<lambda>json_notes.
        then_p (lift (JSON_parse json_notes)) (\<lambda>notes.
        then_p (lift (array_find (name_is n) notes)) (\<lambda>note.
          case note of
            Some (i, el) \<Rightarrow>
              then_p (writeFile (JSON_stringify
                        (array_set notes i (set_prop el ''text'' (JStr req_body)))))
                (\<lambda>u. res_end 201)
          | None \<Rightarrow> res_end 404))))
       internal_error"

text \<open>
  \<^verbatim>\<open>app.post("/write", multer().none(), ...)\<close> with the form fields
  \<^verbatim>\<open>note_name\<close> and \<^verbatim>\<open>note\<close>, which \<^verbatim>\<open>multer\<close> delivers as strings.
\<close>

definition post_write_part_000 :: "string \<Rightarrow> string \<Rightarrow> unit promise" where
  "post_write_part_000 note_name note =
     catch_p
       (then_p readFile (\<lambda>json_notes.
        then_p (lift (JSON_parse json_notes)) (\<lambda>notes.
        then_p (lift (array_some (name_is note_name) notes)) (\<lambda>exists.
          if exists then res_end 400
          else
            then_p (lift (array_push notes
                      (JObj [(''name'', JStr note_name), (''text'', JStr note)]))) (\<lambda>notes'.
            then_p (writeFile (JSON_stringify notes')) (\<lambda>u. res_end 201))))))
       internal_error"

text \<open>\<^verbatim>\<open>app.delete("/notes/:name")\<close>\<close>

definition delete_notes_name_part_000 :: "string \<Rightarrow> unit promise" where
  "delete_notes_name_part_000 n =
     catch_p
       (then_p readFile (\<lambda>json_notes.
        then_p (lift (JSON_parse json_notes)) (\<lambda>notes.
        then_p (lift (array_filter (name_is_not n) notes)) (\<lambda>filteredNotes.
          if array_length notes \<noteq> length filteredNotes
          then then_p (writeFile (JSON_stringify (JArr filteredNotes))) (\<lambda>u. res_end 200)
          else res_end 404))))
       internal_error"

section \<open>The handlers of \<^verbatim>\<open>src/Lab_5.js\<close>\<close>

text \<open>
  No promise chain of this file has a \<^verbatim>\<open>catch\<close>, and no \<^verbatim>\<open>writeFile\<close> promise is
  awaited. The file assigns \<^verbatim>\<open>notes\<close> and \<^verbatim>\<open>new_notes\<close> as globals; each callback
  assigns them before it reads them and runs to completion, so they are modelled as
  locals.

  \<^verbatim>\<open>notes.map(f)\<close> and \<^verbatim>\<open>notes.forEach(f)\<close> for a callback with effects, whose
  results the handlers drop.
\<close>

fun each_p :: "('a \<Rightarrow> unit promise) \<Rightarrow> 'a list \<Rightarrow> unit promise" where
  "each_p f [] = resolve ()"
| "each_p f (x # xs) = then_p (f x) (\<lambda>u. each_p f xs)"

definition array_each :: "(jsval \<Rightarrow> unit promise) \<Rightarrow> jsval \<Rightarrow> unit promise" where
  "array_each f notes = (case notes of JArr xs \<Rightarrow> each_p f xs | _ \<Rightarrow> reject TypeError)"

text \<open>\<^verbatim>\<open>app.get('/notes')\<close>\<close>

definition get_notes_Lab_5 :: "unit promise" where
  "get_notes_Lab_5 = then_p readFile (\<lambda>notes. res_send 200 (Some ''json'') (Raw notes))"

text \<open>
  \<^verbatim>\<open>app.get('/notes/:name')\<close>: the callback of \<^verbatim>\<open>notes.map\<close> sends the text of
  an element whose name matches, and the handler ends the response with 404 after the
  scan, whatever the scan did.
\<close>

definition send_matching :: "string \<Rightarrow> jsval \<Rightarrow> unit promise" where
  "send_matching n el =
     then_p (lift (name_is n el)) (\<lambda>b.
       if b
       then then_p (lift (get_prop el ''text''))
              (\<lambda>t. res_send 200 (Some ''text'') (Body t))
       else resolve ())"

definition get_notes_name_Lab_5 :: "string \<Rightarrow> unit promise" where
  "get_notes_name_Lab_5 n =
     then_p readFile (\<lambda>json_notes.
     then_p (lift (JSON_parse json_notes)) (\<lambda>notes.
     then_p (array_each (send_matching n) notes) (\<lambda>u.
     res_end 404)))"

text \<open>
  \<^verbatim>\<open>app.put('/notes/:name')\<close>: the loop
  \<^verbatim>\<open>for (let i = 0; i < notes.length; i++)\<close> over an array. A match assigns the text,
  starts a write of the array as it is then, ends the response with 201, and the loop
  goes on. Neither the call of \<^verbatim>\<open>writeFile\<close> nor that of \<^verbatim>\<open>end\<close> throws, so only
  the state they leave is passed on.
\<close>

function put_loop :: "string \<Rightarrow> string \<Rightarrow> jsval list \<Rightarrow> nat \<Rightarrow> unit promise" where
  "put_loop n req_body notes i r =
     (if i < length notes then
        (case name_is n (notes ! i) of
           Inl e \<Rightarrow> (Inl e, r)
         | Inr b \<Rightarrow>
             if b then
               (let notes' = notes[i := set_prop (notes ! i) ''text'' (JStr req_body)];
                    r1 = snd (writeFile_detached (JSON_stringify (JArr notes')) r);
                    r2 = snd (res_end 201 r1)
                in put_loop n req_body notes' (i + 1) r2)
             else put_loop n req_body notes (i + 1) r)
      else (Inr (), r))"
  by pat_completeness auto
termination
  by (relation "measure (\<lambda>(n, req_body, notes, i, r). length notes - i)") auto

declare put_loop.simps [simp del]

text \<open>
  The loop on what \<^verbatim>\<open>JSON.parse\<close> returned. \<^verbatim>\<open>null.length\<close> throws; a number, a
  boolean and an object without a \<^verbatim>\<open>length\<close> property have the length
  \<^verbatim>\<open>undefined\<close>, and the loop body never runs; the elements of a string are strings,
  which have no \<^verbatim>\<open>name\<close>. The bound that an object with a property \<^verbatim>\<open>length\<close>
  gives the loop depends on the number conversions of the language, which are not
  modelled.
\<close>

definition put_scan :: "string \<Rightarrow> string \<Rightarrow> jsval \<Rightarrow> unit promise" where
  "put_scan n req_body notes =
     (case notes of
        JArr xs \<Rightarrow> put_loop n req_body xs 0
      | JNull \<Rightarrow> reject TypeError
      | JObj kvs \<Rightarrow> (if map_of kvs ''length'' = None then resolve () else reject OutsideModel)
      | _ \<Rightarrow> resolve ())"

definition put_notes_name_Lab_5 :: "string \<Rightarrow> string \<Rightarrow> unit promise" where
  "put_notes_name_Lab_5 n req_body =
     then_p readFile (\<lambda>json_notes.
     then_p (lift (JSON_parse json_notes)) (\<lambda>notes.
     then_p (put_scan n req_body notes) (\<lambda>u.
     res_end 404)))"

text \<open>
  \<^verbatim>\<open>app.post('/write', multer().none(), ...)\<close>: the callback of \<^verbatim>\<open>notes.map\<close> sets
  \<^verbatim>\<open>flag\<close> at a match and visits every element.
\<close>

fun scan_flag :: "('a \<Rightarrow> js_error + bool) \<Rightarrow> 'a list \<Rightarrow> bool \<Rightarrow> js_error + bool" where
  "scan_flag p [] flag = Inr flag"
| "scan_flag p (x # xs) flag =
     (case p x of Inl e \<Rightarrow> Inl e | Inr b \<Rightarrow> scan_flag p xs (if b then True else flag))"

definition array_scan_flag :: "(jsval \<Rightarrow> js_error + bool) \<Rightarrow> jsval \<Rightarrow> js_error + bool" where
  "array_scan_flag p notes =
     (case notes of JArr xs \<Rightarrow> scan_flag p xs False | _ \<Rightarrow> Inl TypeError)"

definition post_write_Lab_5 :: "string \<Rightarrow> string \<Rightarrow> unit promise" where
  "post_write_Lab_5 note_name note =
     then_p readFile (\<lambda>json_notes.
     then_p (lift (JSON_parse json_notes)) (\<lambda>notes.
     then_p (lift (array_scan_flag (name_is note_name) notes)) (\<lambda>flag.
       if flag then res_end 400
       else
         then_p (lift (array_push notes
                   (JObj [(''name'', JStr note_name), (''text'', JStr note)]))) (\<lambda>notes'.
         then_p (writeFile_detached (JSON_stringify notes')) (\<lambda>u.
         res_end 201)))))"

text \<open>
  \<^verbatim>\<open>app.delete('/notes/:name')\<close>: the callback of \<^verbatim>\<open>notes.forEach\<close> sets
  \<^verbatim>\<open>flag\<close> at a match and pushes every other element to \<^verbatim>\<open>new_notes\<close>.
\<close>

fun forEach_delete :: "string \<Rightarrow> jsval list \<Rightarrow> bool \<times> jsval list \<Rightarrow> js_error + bool \<times> jsval list" where
  "forEach_delete n [] acc = Inr acc"
| "forEach_delete n (el # els) acc =
     (case name_is n el of
        Inl e \<Rightarrow> Inl e
      | Inr b \<Rightarrow>
          if b then forEach_delete n els (True, snd acc)
          else forEach_delete n els (fst acc, snd acc @ [el]))"

definition array_forEach_delete :: "string \<Rightarrow> jsval \<Rightarrow> js_error + bool \<times> jsval list" where
  "array_forEach_delete n notes =
     (case notes of JArr xs \<Rightarrow> forEach_delete n xs (False, []) | _ \<Rightarrow> Inl TypeError)"

definition delete_notes_name_Lab_5 :: "string \<Rightarrow> unit promise" where
  "delete_notes_name_Lab_5 n =
     then_p readFile (\<lambda>json_notes.
     then_p (lift (JSON_parse json_notes)) (\<lambda>notes.
     then_p (lift (array_forEach_delete n notes)) (\<lambda>scanned.
       if fst scanned
       then then_p (writeFile_detached (JSON_stringify (JArr (snd scanned)))) (\<lambda>u.
            res_end 200)
       else res_end 404)))"

section \<open>Serving requests\<close>

text \<open>
  What one request leaves behind: the disk once every write it started has completed,
  the events in their order, and the rejections that no handler caught.
\<close>

record outcome =
  store :: disk
  events :: "event list"
  unhandled :: "js_error list"

text \<open>
  The writes that were started and not awaited complete after the callback returned, here
  in the order they were started. Two writes of one run race on a real file system; the
  only handler that can start more than one is the update of \<^verbatim>\<open>src/Lab_5.js\<close>, on a
  store with several notes of the name.
\<close>

fun settle :: "buffer list \<Rightarrow> outcome \<Rightarrow> outcome" where
  "settle [] out = out"
| "settle (data # ws) out =
     (if writable (store out)
      then settle ws (out\<lparr>store := (store out)\<lparr>cache := Some data\<rparr>,
                          events := events out @ [WriteDone]\<rparr>)
      else settle ws (out\<lparr>events := events out @ [WriteFailed],
                          unhandled := unhandled out @ [IOError]\<rparr>))"

definition serve :: "unit promise \<Rightarrow> disk \<Rightarrow> outcome" where
  "serve handler d =
     (case handler \<lparr>fsys = d, trace = [], pending = []\<rparr> of
        (res, r) \<Rightarrow>
          settle (pending r)
            \<lparr>store = fsys r, events = trace r,
             unhandled = (case res of Inl e \<Rightarrow> [e] | Inr u \<Rightarrow> [])\<rparr>)"

text \<open>The calls that ended the response, and the response the client receives: the first.\<close>

fun responses :: "event list \<Rightarrow> response list" where
  "responses [] = []"
| "responses (Respond q # es) = q # responses es"
| "responses (e # es) = responses es"

definition wire :: "event list \<Rightarrow> response option" where
  "wire es = (case responses es of [] \<Rightarrow> None | q # qs \<Rightarrow> Some q)"

text \<open>
  The requests of the notes routes. \<open>GetNote n\<close>, \<open>PutNote n req_body\<close> and
  \<open>DeleteNote n\<close> are the requests whose path is \<^verbatim>\<open>/notes/\<close> followed by the name
  \<open>n\<close>, percent-encoded; the body of a \<open>PutNote\<close> is of type \<^verbatim>\<open>text/plain\<close>;
  \<open>PostWrite note_name note\<close> is the multipart request to \<^verbatim>\<open>/write\<close> with these two
  fields. The strings are the texts that express hands to the handlers, decoded
  (\<^verbatim>\<open>req.params.name\<close>, \<^verbatim>\<open>req.body\<close>, \<^verbatim>\<open>req.body.note_name\<close>,
  \<^verbatim>\<open>req.body.note\<close>): sequences of characters, not of the bytes on the wire. A request
  from which the parsers deliver no such strings (another content type, no body, a missing
  field) is not among these. The static upload form and the API docs are left out.
\<close>

datatype request =
    GetNotes
  | GetNote string
  | PutNote string string
  | PostWrite string string
  | DeleteNote string

text \<open>
  A response that no handler of the two files writes: the HTTP server's, or the page of
  express for a request that no route takes or for an error that a middleware passes on.
\<close>

definition respond :: "response \<Rightarrow> unit promise" where
  "respond q r = (Inr (), r\<lparr>trace := trace r @ [Respond q]\<rparr>)"

definition error_page :: "nat \<Rightarrow> response" where
  "error_page c = \<lparr>status = c, ctype = Some ''html'', body = ErrorPage\<rparr>"

text \<open>
  The routes. The pattern \<^verbatim>\<open>/notes/:name\<close> takes a path with a non-empty segment after
  \<^verbatim>\<open>/notes/\<close> only. With the empty name the path is \<^verbatim>\<open>/notes/\<close>: a \<^verbatim>\<open>GET\<close> of it
  is served by the route \<^verbatim>\<open>/notes\<close>, which allows a trailing slash, and no route takes a
  \<^verbatim>\<open>PUT\<close> or a \<^verbatim>\<open>DELETE\<close> of it, which express answers with its page 404.
\<close>

fun route_Lab_5 :: "request \<Rightarrow> unit promise" where
  "route_Lab_5 GetNotes = get_notes_Lab_5"
| "route_Lab_5 (GetNote n) = (if n = [] then get_notes_Lab_5 else get_notes_name_Lab_5 n)"
| "route_Lab_5 (PutNote n req_body) =
     (if n = [] then respond (error_page 404) else put_notes_name_Lab_5 n req_body)"
| "route_Lab_5 (PostWrite note_name note) = post_write_Lab_5 note_name note"
| "route_Lab_5 (DeleteNote n) =
     (if n = [] then respond (error_page 404) else delete_notes_name_Lab_5 n)"

fun route_part_000 :: "request \<Rightarrow> unit promise" where
  "route_part_000 GetNotes = get_notes_part_000"
| "route_part_000 (GetNote n) = (if n = [] then get_notes_part_000 else get_notes_name_part_000 n)"
| "route_part_000 (PutNote n req_body) =
     (if n = [] then respond (error_page 404) else put_notes_name_part_000 n req_body)"
| "route_part_000 (PostWrite note_name note) = post_write_part_000 note_name note"
| "route_part_000 (DeleteNote n) =
     (if n = [] then respond (error_page 404) else delete_notes_name_part_000 n)"

text \<open>
  In front of the routes stand, in both files, the HTTP server, which refuses a request
  whose head is over its size limit (431); \<^verbatim>\<open>app.use(express.text())\<close>, which refuses a
  body over its size limit (413); and, in front of the create handler,
  \<^verbatim>\<open>multer().none()\<close>, whose error on a field over its size limit express answers with
  its page 500. None of them touches the store. The limits are the libraries' and not in
  the files of the repository, so they are a parameter: the function that gives the
  response to a request that is refused, and \<open>None\<close> to a request that passes.
\<close>

type_synonym limits = "request \<Rightarrow> response option"

definition app_Lab_5 :: "limits \<Rightarrow> request \<Rightarrow> unit promise" where
  "app_Lab_5 lim q = (case lim q of Some refusal \<Rightarrow> respond refusal | None \<Rightarrow> route_Lab_5 q)"

definition app_part_000 :: "limits \<Rightarrow> request \<Rightarrow> unit promise" where
  "app_part_000 lim q = (case lim q of Some refusal \<Rightarrow> respond refusal | None \<Rightarrow> route_part_000 q)"

text \<open>
  The request is taken by the route it is meant for, and it reaches the handler of that
  route.
\<close>

fun reaches_route :: "request \<Rightarrow> bool" where
  "reaches_route GetNotes = True"
| "reaches_route (GetNote n) = (n \<noteq> [])"
| "reaches_route (PutNote n req_body) = (n \<noteq> [])"
| "reaches_route (PostWrite note_name note) = True"
| "reaches_route (DeleteNote n) = (n \<noteq> [])"

definition admitted :: "limits \<Rightarrow> request \<Rightarrow> bool" where
  "admitted lim q = (lim q = None \<and> reaches_route q)"

text \<open>
  Limits for the examples, counted in characters of the name, of the body and of a field: the
  HTTP server refuses a head over \<open>h\<close>, \<^verbatim>\<open>express.text()\<close> a body over \<open>t\<close>,
  \<^verbatim>\<open>multer\<close> a field of \<open>f\<close> or more. The sizes of \<open>default_limits\<close> are
  the defaults of the libraries: 16 KiB for the head of a request, 100kb for a text body,
  1 MiB for a field. Where exactly an installation draws each line depends on its versions,
  on the encoding and on the rest of the request; the examples stay far from the lines,
  and the theorems hold for every function of limits.
\<close>

fun size_limits :: "nat \<Rightarrow> nat \<Rightarrow> nat \<Rightarrow> limits" where
  "size_limits h t f GetNotes = None"
| "size_limits h t f (GetNote n) =
     (if h < length n then Some \<lparr>status = 431, ctype = None, body = NoBody\<rparr> else None)"
| "size_limits h t f (PutNote n req_body) =
     (if h < length n then Some \<lparr>status = 431, ctype = None, body = NoBody\<rparr>
      else if t < length req_body then Some (error_page 413)
      else None)"
| "size_limits h t f (PostWrite note_name note) =
     (if f \<le> length note_name then Some (error_page 500)
      else if f \<le> length note then Some (error_page 500)
      else None)"
| "size_limits h t f (DeleteNote n) =
     (if h < length n then Some \<lparr>status = 431, ctype = None, body = NoBody\<rparr> else None)"

definition default_limits :: limits where
  "default_limits = size_limits 16384 102400 1048576"

text \<open>
  Requests served one after the other, each on the disk the one before left. A rejection
  that nothing catches may end the process; the requests after it are then served by a
  restarted process, from the same disk.
\<close>

fun serve_all :: "(request \<Rightarrow> unit promise) \<Rightarrow> disk \<Rightarrow> request list \<Rightarrow> disk" where
  "serve_all app d [] = d"
| "serve_all app d (q # qs) = serve_all app (store (serve (app q) d)) qs"

text \<open>The responses the client receives to requests served one after the other.\<close>

fun serve_wire :: "(request \<Rightarrow> unit promise) \<Rightarrow> disk \<Rightarrow> request list \<Rightarrow> response option list" where
  "serve_wire app d [] = []"
| "serve_wire app d (q # qs) =
     wire (events (serve (app q) d)) # serve_wire app (store (serve (app q) d)) qs"

text \<open>
  The store the services start from: \<^verbatim>\<open>JSON.stringify([])\<close>, written at startup when the
  file does not exist.
\<close>

definition empty_store :: disk where
  "empty_store = \<lparr>cache = Some (JSON_stringify (JArr [])), writable = True\<rparr>"

section \<open>The operations in the words of the specification\<close>

text \<open>
  The store as an ordered sequence of notes. Create appends a note at the end unless the
  name is taken; update replaces the text of the note with the name and keeps its place;
  delete drops the notes with the name and keeps the order of the others.
\<close>

definition spec_create :: "string \<Rightarrow> string \<Rightarrow> Note list \<Rightarrow> Note list" where
  "spec_create n t ns = (if n \<in> set (map name ns) then ns else ns @ [\<lparr>name = n, text = t\<rparr>])"

fun spec_update :: "string \<Rightarrow> string \<Rightarrow> Note list \<Rightarrow> Note list" where
  "spec_update n t [] = []"
| "spec_update n t (x # xs) =
     (if name x = n then x\<lparr>text := t\<rparr> # xs else x # spec_update n t xs)"

definition spec_delete :: "string \<Rightarrow> Note list \<Rightarrow> Note list" where
  "spec_delete n ns = filter (\<lambda>x. name x \<noteq> n) ns"

fun spec_effect :: "request \<Rightarrow> Note list \<Rightarrow> Note list" where
  "spec_effect (PostWrite n t) ns = spec_create n t ns"
| "spec_effect (PutNote n t) ns = spec_update n t ns"
| "spec_effect (DeleteNote n) ns = spec_delete n ns"
| "spec_effect q ns = ns"

fun spec_replay :: "request list \<Rightarrow> Note list \<Rightarrow> Note list" where
  "spec_replay [] ns = ns"
| "spec_replay (q # qs) ns = spec_replay qs (spec_effect q ns)"

text \<open>
  A store file that holds no array: a text that is not JSON, or the JSON of a value that
  is not an array.
\<close>

definition not_an_array :: "buffer \<Rightarrow> bool" where
  "not_an_array b =
     (case b of
        NotJSON s \<Rightarrow> True
      | JSONText v \<Rightarrow> (case v of JArr xs \<Rightarrow> False | _ \<Rightarrow> True))"

section \<open>The handlers on a store of notes\<close>

lemmas prims = then_p_def catch_p_def lift_def resolve_def reject_def readFile_def
  writeFile_def writeFile_detached_def JSON_parse_def JSON_stringify_def res_end_def
  res_send_def headersSent_def internal_error_def serve_def

lemma get_prop_note_obj [simp]:
  "get_prop (note_obj x) ''name'' = Inr (Some (JStr (name x)))"
  "get_prop (note_obj x) ''text'' = Inr (Some (JStr (text x)))"
  by (simp_all add: note_obj_def)

lemma name_is_note_obj [simp]: "name_is n (note_obj x) = Inr (name x = n)"
  by (simp add: name_is_def)

lemma name_is_not_note_obj [simp]: "name_is_not n (note_obj x) = Inr (name x \<noteq> n)"
  by (simp add: name_is_not_def)

lemma set_prop_note_obj [simp]:
  "set_prop (note_obj x) ''text'' (JStr t) = note_obj (x\<lparr>text := t\<rparr>)"
  by (simp add: note_obj_def)

lemma note_obj_inject [simp]: "note_obj x = note_obj y \<longleftrightarrow> x = y"
  by (cases x, cases y) (simp add: note_obj_def)

lemma store_json_inject [simp]: "store_json ns = store_json ns' \<longleftrightarrow> ns = ns'"
proof -
  have "inj note_obj"
    by (rule injI) simp
  then show ?thesis
    by (simp add: store_json_def inj_map_eq_map)
qed

lemma find_from_notes:
  "find_from (name_is n) i (map note_obj ns) =
     Inr (case find (\<lambda>x. name x = n) ns of
            None \<Rightarrow> None
          | Some x \<Rightarrow> Some (i + length (takeWhile (\<lambda>x. name x \<noteq> n) ns), note_obj x))"
  by (induction ns arbitrary: i) (auto split: option.splits)

lemma some_js_notes: "some_js (name_is n) (map note_obj ns) = Inr (n \<in> set (map name ns))"
  by (induction ns) auto

lemma filter_js_notes:
  "filter_js (name_is_not n) (map note_obj ns) = Inr (map note_obj (filter (\<lambda>x. name x \<noteq> n) ns))"
  by (induction ns) auto

lemma scan_flag_notes:
  "scan_flag (name_is n) (map note_obj ns) flag = Inr (flag \<or> n \<in> set (map name ns))"
  by (induction ns arbitrary: flag) auto

lemma forEach_delete_notes:
  "forEach_delete n (map note_obj ns) acc =
     Inr (fst acc \<or> n \<in> set (map name ns), snd acc @ map note_obj (filter (\<lambda>x. name x \<noteq> n) ns))"
  by (induction ns arbitrary: acc) auto

lemma find_None_names: "find (\<lambda>x. name x = n) ns = None \<longleftrightarrow> n \<notin> set (map name ns)"
  by (induction ns) auto

lemma update_first_notes:
  "find (\<lambda>x. name x = n) ns = Some x \<Longrightarrow>
   (map note_obj ns)[length (takeWhile (\<lambda>x. name x \<noteq> n) ns) := note_obj (x\<lparr>text := t\<rparr>)] =
   map note_obj (spec_update n t ns)"
  by (induction ns) (auto split: if_splits)


lemma get_part_000:
  "cache d = Some (store_json ns) \<Longrightarrow>
   serve (get_notes_name_part_000 n) d =
     \<lparr>store = d,
      events = [Respond (case find (\<lambda>x. name x = n) ns of
                  Some x \<Rightarrow> \<lparr>status = 200, ctype = Some ''text'', body = Body (Some (JStr (text x)))\<rparr>
                | None \<Rightarrow> \<lparr>status = 404, ctype = None, body = NoBody\<rparr>)],
      unhandled = []\<rparr>"
  by (simp add: get_notes_name_part_000_def prims store_json_def array_find_def find_from_notes
      split: option.splits)


lemma put_part_000:
  assumes "cache d = Some (store_json ns)"
  shows "serve (put_notes_name_part_000 n t) d =
     (if n \<in> set (map name ns) then
        if writable d then
          \<lparr>store = d\<lparr>cache := Some (store_json (spec_update n t ns))\<rparr>,
           events = [WriteBegin (store_json (spec_update n t ns)), WriteDone,
                     Respond \<lparr>status = 201, ctype = None, body = NoBody\<rparr>],
           unhandled = []\<rparr>
        else
          \<lparr>store = d,
           events = [WriteBegin (store_json (spec_update n t ns)), WriteFailed,
                     Respond \<lparr>status = 500, ctype = None,
                              body = Body (Some (JStr ''Internal server error''))\<rparr>],
           unhandled = []\<rparr>
      else \<lparr>store = d, events = [Respond \<lparr>status = 404, ctype = None, body = NoBody\<rparr>],
            unhandled = []\<rparr>)"
proof (cases "find (\<lambda>x. name x = n) ns")
  case None
  then have "n \<notin> set (map name ns)"
    by (simp add: find_None_names)
  with None assms show ?thesis
    by (simp add: put_notes_name_part_000_def prims store_json_def array_find_def
        find_from_notes)
next
  case (Some x)
  then have mem: "n \<in> set (map name ns)"
    using find_None_names[of n ns] by auto
  have upd: "(map note_obj ns)[length (takeWhile (\<lambda>x. name x \<noteq> n) ns) := note_obj (x\<lparr>text := t\<rparr>)] =
      map note_obj (spec_update n t ns)"
    using Some by (rule update_first_notes)
  show ?thesis
    using assms Some mem upd
    by (simp add: put_notes_name_part_000_def prims store_json_def array_find_def
        find_from_notes array_set_def)
qed

lemma filter_length_names:
  "length (filter (\<lambda>x. name x \<noteq> n) ns) = length ns \<longleftrightarrow> n \<notin> set (map name ns)"
proof (cases "n \<in> set (map name ns)")
  case True
  then obtain x where "x \<in> set ns" "\<not> name x \<noteq> n"
    by auto
  then have "length (filter (\<lambda>x. name x \<noteq> n) ns) < length ns"
    by (rule length_filter_less)
  with True show ?thesis by simp
next
  case False
  then have "filter (\<lambda>x. name x \<noteq> n) ns = ns"
    by (auto intro: filter_True)
  with False show ?thesis by simp
qed

lemma post_part_000:
  assumes "cache d = Some (store_json ns)"
  shows "serve (post_write_part_000 n t) d =
     (if n \<in> set (map name ns) then
        \<lparr>store = d, events = [Respond \<lparr>status = 400, ctype = None, body = NoBody\<rparr>],
         unhandled = []\<rparr>
      else if writable d then
        \<lparr>store = d\<lparr>cache := Some (store_json (ns @ [\<lparr>name = n, text = t\<rparr>]))\<rparr>,
         events = [WriteBegin (store_json (ns @ [\<lparr>name = n, text = t\<rparr>])), WriteDone,
                   Respond \<lparr>status = 201, ctype = None, body = NoBody\<rparr>],
         unhandled = []\<rparr>
      else
        \<lparr>store = d,
         events = [WriteBegin (store_json (ns @ [\<lparr>name = n, text = t\<rparr>])), WriteFailed,
                   Respond \<lparr>status = 500, ctype = None,
                            body = Body (Some (JStr ''Internal server error''))\<rparr>],
         unhandled = []\<rparr>)"
  using assms
  by (simp add: post_write_part_000_def prims store_json_def array_some_def some_js_notes
      array_push_def note_obj_def)

lemma delete_part_000:
  assumes "cache d = Some (store_json ns)"
  shows "serve (delete_notes_name_part_000 n) d =
     (if n \<in> set (map name ns) then
        if writable d then
          \<lparr>store = d\<lparr>cache := Some (store_json (filter (\<lambda>x. name x \<noteq> n) ns))\<rparr>,
           events = [WriteBegin (store_json (filter (\<lambda>x. name x \<noteq> n) ns)), WriteDone,
                     Respond \<lparr>status = 200, ctype = None, body = NoBody\<rparr>],
           unhandled = []\<rparr>
        else
          \<lparr>store = d,
           events = [WriteBegin (store_json (filter (\<lambda>x. name x \<noteq> n) ns)), WriteFailed,
                     Respond \<lparr>status = 500, ctype = None,
                              body = Body (Some (JStr ''Internal server error''))\<rparr>],
           unhandled = []\<rparr>
      else \<lparr>store = d, events = [Respond \<lparr>status = 404, ctype = None, body = NoBody\<rparr>],
            unhandled = []\<rparr>)"
proof -
  show ?thesis
    using assms filter_length_names[of n ns]
    by (simp add: delete_notes_name_part_000_def prims store_json_def array_filter_def
        filter_js_notes array_length_def eq_commute[of "length ns"])
qed

lemma get_notes_any:
  "cache d = Some b \<Longrightarrow>
   serve get_notes_part_000 d =
     \<lparr>store = d, events = [Respond \<lparr>status = 200, ctype = Some ''json'', body = Raw b\<rparr>],
      unhandled = []\<rparr> \<and>
   serve get_notes_Lab_5 d =
     \<lparr>store = d, events = [Respond \<lparr>status = 200, ctype = Some ''json'', body = Raw b\<rparr>],
      unhandled = []\<rparr>"
  by (simp add: get_notes_part_000_def get_notes_Lab_5_def prims)

lemma each_sent:
  "headersSent r \<Longrightarrow>
   each_p (send_matching n) (map note_obj ns) r =
     (if filter (\<lambda>x. name x = n) ns = [] then Inr () else Inl HeadersSent, r)"
  by (induction ns) (auto simp: send_matching_def then_p_def lift_def resolve_def res_send_def)

lemma each_unsent:
  "\<not> headersSent r \<Longrightarrow>
   each_p (send_matching n) (map note_obj ns) r =
     (case filter (\<lambda>x. name x = n) ns of
        [] \<Rightarrow> (Inr (), r)
      | x # xs \<Rightarrow>
          (if xs = [] then Inr () else Inl HeadersSent,
           r\<lparr>trace := trace r @ [Respond \<lparr>status = 200, ctype = Some ''text'',
                                          body = Body (Some (JStr (text x)))\<rparr>]\<rparr>))"
proof (induction ns)
  case Nil
  then show ?case by (simp add: resolve_def)
next
  case (Cons a ns)
  show ?case
  proof (cases "name a = n")
    case True
    let ?r = "r\<lparr>trace := trace r @ [Respond \<lparr>status = 200, ctype = Some ''text'',
                                          body = Body (Some (JStr (text a)))\<rparr>]\<rparr>"
    have sent: "headersSent ?r"
      by (simp add: headersSent_def)
    have "send_matching n (note_obj a) r = (Inr (), ?r)"
      using True Cons.prems by (simp add: send_matching_def then_p_def lift_def res_send_def)
    then show ?thesis
      using True each_sent[OF sent, of n ns] by (simp add: then_p_def)
  next
    case False
    then have "send_matching n (note_obj a) r = (Inr (), r)"
      by (simp add: send_matching_def then_p_def lift_def resolve_def)
    then show ?thesis
      using False Cons by (simp add: then_p_def)
  qed
qed

lemma get_Lab_5:
  assumes "cache d = Some (store_json ns)"
  shows "serve (get_notes_name_Lab_5 n) d =
     (case filter (\<lambda>x. name x = n) ns of
        [] \<Rightarrow> \<lparr>store = d, events = [Respond \<lparr>status = 404, ctype = None, body = NoBody\<rparr>],
               unhandled = []\<rparr>
      | x # xs \<Rightarrow>
          if xs = [] then
            \<lparr>store = d,
             events = [Respond \<lparr>status = 200, ctype = Some ''text'',
                                body = Body (Some (JStr (text x)))\<rparr>,
                       Respond \<lparr>status = 404, ctype = None, body = NoBody\<rparr>],
             unhandled = []\<rparr>
          else
            \<lparr>store = d,
             events = [Respond \<lparr>status = 200, ctype = Some ''text'',
                                body = Body (Some (JStr (text x)))\<rparr>],
             unhandled = [HeadersSent]\<rparr>)"
proof -
  let ?r = "\<lparr>fsys = d, trace = [], pending = []\<rparr>"
  have unsent: "\<not> headersSent ?r"
    by (simp add: headersSent_def)
  have "get_notes_name_Lab_5 n ?r =
      then_p (each_p (send_matching n) (map note_obj ns)) (\<lambda>u. res_end 404) ?r"
    using assms
    by (simp add: get_notes_name_Lab_5_def store_json_def array_each_def
        then_p_def readFile_def lift_def JSON_parse_def)
  then show ?thesis
    using each_unsent[OF unsent, of n ns]
    by (simp add: serve_def then_p_def res_end_def split: list.splits)
qed

lemma put_loop_no_match:
  "(\<And>j. i \<le> j \<Longrightarrow> j < length ns \<Longrightarrow> name (ns ! j) \<noteq> n) \<Longrightarrow>
   put_loop n t (map note_obj ns) i r = (Inr (), r)"
proof (induction "length ns - i" arbitrary: i)
  case 0
  then show ?case
    by (subst put_loop.simps) simp
next
  case (Suc k)
  then have i: "i < length ns" and here: "name (ns ! i) \<noteq> n"
    by auto
  have "put_loop n t (map note_obj ns) (i + 1) r = (Inr (), r)"
    using Suc.hyps(2) Suc.prems by (intro Suc.hyps(1)) auto
  then show ?case
    using i here by (subst put_loop.simps) simp
qed

lemma put_loop_one_match:
  assumes "i \<le> k" "k < length ns" "name (ns ! k) = n"
    and others: "\<And>j. j < length ns \<Longrightarrow> j \<noteq> k \<Longrightarrow> name (ns ! j) \<noteq> n"
  shows "put_loop n t (map note_obj ns) i r =
     (Inr (), r\<lparr>trace := trace r @
                    [WriteBegin (store_json (ns[k := (ns ! k)\<lparr>text := t\<rparr>])),
                     Respond \<lparr>status = 201, ctype = None, body = NoBody\<rparr>],
                 pending := pending r @ [store_json (ns[k := (ns ! k)\<lparr>text := t\<rparr>])]\<rparr>)"
  using assms(1)
proof (induction "k - i" arbitrary: i)
  case 0
  then have ik: "i = k" by simp
  let ?ns' = "ns[k := (ns ! k)\<lparr>text := t\<rparr>]"
  have upd: "(map note_obj ns)[k := note_obj ((ns ! k)\<lparr>text := t\<rparr>)] = map note_obj ?ns'"
    by (simp add: map_update)
  have rest: "put_loop n t (map note_obj ?ns') (Suc k) r' = (Inr (), r')" for r'
  proof (rule put_loop_no_match)
    fix j assume "Suc k \<le> j" "j < length ?ns'"
    then show "name (?ns' ! j) \<noteq> n"
      using others[of j] by simp
  qed
  show ?case
    using assms(2,3) ik
    by (subst put_loop.simps)
       (simp add: upd rest writeFile_detached_def res_end_def JSON_stringify_def store_json_def
          Let_def)
next
  case (Suc m)
  then have i: "i < k" "i < length ns" and here: "name (ns ! i) \<noteq> n"
    using assms(2) others[of i] by auto
  have "put_loop n t (map note_obj ns) (i + 1) r =
     (Inr (), r\<lparr>trace := trace r @
                    [WriteBegin (store_json (ns[k := (ns ! k)\<lparr>text := t\<rparr>])),
                     Respond \<lparr>status = 201, ctype = None, body = NoBody\<rparr>],
                 pending := pending r @ [store_json (ns[k := (ns ! k)\<lparr>text := t\<rparr>])]\<rparr>)"
    using Suc.hyps(2) i by (intro Suc.hyps(1)) auto
  then show ?case
    using i here by (subst put_loop.simps) simp
qed

lemma first_match:
  "find (\<lambda>x. name x = n) ns = Some x \<Longrightarrow>
   length (takeWhile (\<lambda>x. name x \<noteq> n) ns) < length ns \<and>
   ns ! length (takeWhile (\<lambda>x. name x \<noteq> n) ns) = x \<and> name x = n \<and>
   spec_update n t ns = ns[length (takeWhile (\<lambda>x. name x \<noteq> n) ns) := x\<lparr>text := t\<rparr>]"
  by (induction ns) (auto split: if_splits)

lemma distinct_names_others:
  assumes "distinct (map name ns)" "k < length ns" "j < length ns" "j \<noteq> k"
  shows "name (ns ! j) \<noteq> name (ns ! k)"
  using assms nth_eq_iff_index_eq[of "map name ns" j k] by simp

lemma put_Lab_5:
  assumes "cache d = Some (store_json ns)" and "distinct (map name ns)"
  shows "serve (put_notes_name_Lab_5 n t) d =
     (if n \<in> set (map name ns) then
        if writable d then
          \<lparr>store = d\<lparr>cache := Some (store_json (spec_update n t ns))\<rparr>,
           events = [WriteBegin (store_json (spec_update n t ns)),
                     Respond \<lparr>status = 201, ctype = None, body = NoBody\<rparr>,
                     Respond \<lparr>status = 404, ctype = None, body = NoBody\<rparr>,
                     WriteDone],
           unhandled = []\<rparr>
        else
          \<lparr>store = d,
           events = [WriteBegin (store_json (spec_update n t ns)),
                     Respond \<lparr>status = 201, ctype = None, body = NoBody\<rparr>,
                     Respond \<lparr>status = 404, ctype = None, body = NoBody\<rparr>,
                     WriteFailed],
           unhandled = [IOError]\<rparr>
      else \<lparr>store = d, events = [Respond \<lparr>status = 404, ctype = None, body = NoBody\<rparr>],
            unhandled = []\<rparr>)"
proof (cases "find (\<lambda>x. name x = n) ns")
  case None
  then have no: "n \<notin> set (map name ns)"
    by (simp add: find_None_names)
  then have "put_loop n t (map note_obj ns) 0 r = (Inr (), r)" for r
    by (intro put_loop_no_match) auto
  with no assms(1) show ?thesis
    by (simp add: put_notes_name_Lab_5_def put_scan_def serve_def store_json_def then_p_def
        readFile_def lift_def JSON_parse_def res_end_def)
next
  case (Some x)
  let ?k = "length (takeWhile (\<lambda>x. name x \<noteq> n) ns)"
  from Some have k: "?k < length ns" "ns ! ?k = x" "name x = n"
    and upd: "spec_update n t ns = ns[?k := x\<lparr>text := t\<rparr>]"
    using first_match[of n ns x t] by auto
  then have mem: "n \<in> set (map name ns)"
    by (metis nth_mem image_eqI set_map)
  have loop: "put_loop n t (map note_obj ns) 0 r =
     (Inr (), r\<lparr>trace := trace r @
                    [WriteBegin (store_json (spec_update n t ns)),
                     Respond \<lparr>status = 201, ctype = None, body = NoBody\<rparr>],
                 pending := pending r @ [store_json (spec_update n t ns)]\<rparr>)" for r
    using put_loop_one_match[of 0 ?k ns n t r] k distinct_names_others[OF assms(2) k(1)]
    by (simp add: upd)
  show ?thesis
    using mem assms(1)
    by (simp add: put_notes_name_Lab_5_def put_scan_def serve_def store_json_def[of ns]
        then_p_def readFile_def lift_def JSON_parse_def res_end_def loop)
qed

lemma post_Lab_5:
  assumes "cache d = Some (store_json ns)"
  shows "serve (post_write_Lab_5 n t) d =
     (if n \<in> set (map name ns) then
        \<lparr>store = d, events = [Respond \<lparr>status = 400, ctype = None, body = NoBody\<rparr>],
         unhandled = []\<rparr>
      else if writable d then
        \<lparr>store = d\<lparr>cache := Some (store_json (ns @ [\<lparr>name = n, text = t\<rparr>]))\<rparr>,
         events = [WriteBegin (store_json (ns @ [\<lparr>name = n, text = t\<rparr>])),
                   Respond \<lparr>status = 201, ctype = None, body = NoBody\<rparr>, WriteDone],
         unhandled = []\<rparr>
      else
        \<lparr>store = d,
         events = [WriteBegin (store_json (ns @ [\<lparr>name = n, text = t\<rparr>])),
                   Respond \<lparr>status = 201, ctype = None, body = NoBody\<rparr>, WriteFailed],
         unhandled = [IOError]\<rparr>)"
  using assms
  by (simp add: post_write_Lab_5_def prims store_json_def array_scan_flag_def scan_flag_notes
      array_push_def note_obj_def)

lemma delete_Lab_5:
  assumes "cache d = Some (store_json ns)"
  shows "serve (delete_notes_name_Lab_5 n) d =
     (if n \<in> set (map name ns) then
        if writable d then
          \<lparr>store = d\<lparr>cache := Some (store_json (filter (\<lambda>x. name x \<noteq> n) ns))\<rparr>,
           events = [WriteBegin (store_json (filter (\<lambda>x. name x \<noteq> n) ns)),
                     Respond \<lparr>status = 200, ctype = None, body = NoBody\<rparr>, WriteDone],
           unhandled = []\<rparr>
        else
          \<lparr>store = d,
           events = [WriteBegin (store_json (filter (\<lambda>x. name x \<noteq> n) ns)),
                     Respond \<lparr>status = 200, ctype = None, body = NoBody\<rparr>, WriteFailed],
           unhandled = [IOError]\<rparr>
      else \<lparr>store = d, events = [Respond \<lparr>status = 404, ctype = None, body = NoBody\<rparr>],
            unhandled = []\<rparr>)"
  using assms
  by (simp add: delete_notes_name_Lab_5_def prims store_json_def array_forEach_delete_def
      forEach_delete_notes)

lemma wire_simps [simp]:
  "wire [] = None"
  "wire (Respond q # es) = Some q"
  "wire (WriteBegin b # es) = wire es"
  "wire (WriteDone # es) = wire es"
  "wire (WriteFailed # es) = wire es"
  by (simp_all add: wire_def split: list.splits)

lemma names_spec_update [simp]: "map name (spec_update n t ns) = map name ns"
  by (induction ns) auto

lemma spec_update_absent: "n \<notin> set (map name ns) \<Longrightarrow> spec_update n t ns = ns"
  by (induction ns) auto

lemma distinct_spec_effect:
  "distinct (map name ns) \<Longrightarrow> distinct (map name (spec_effect q ns))"
  by (cases q) (auto simp: spec_create_def spec_delete_def distinct_map_filter)

lemma distinct_spec_replay:
  "distinct (map name ns) \<Longrightarrow> distinct (map name (spec_replay qs ns))"
  by (induction qs arbitrary: ns) (auto simp: distinct_spec_effect)

lemma disk_cache_same: "cache d = Some b \<Longrightarrow> d\<lparr>cache := Some b\<rparr> = d"
  by simp

lemma filter_absent: "n \<notin> set (map name ns) \<Longrightarrow> filter (\<lambda>x. name x \<noteq> n) ns = ns"
  by (auto intro: filter_True)

text \<open>
  From here on the service as a whole: the limits, the routes, the handlers.
\<close>

lemma serve_respond:
  "serve (respond q) d = \<lparr>store = d, events = [Respond q], unhandled = []\<rparr>"
  by (simp add: serve_def respond_def)

lemma store_route_part_000:
  assumes "cache d = Some (store_json ns)"
  shows "store (serve (route_part_000 q) d) =
     (if writable d
      then d\<lparr>cache := Some (store_json (if reaches_route q then spec_effect q ns else ns))\<rparr>
      else d)"
proof (cases q)
  case GetNotes
  then show ?thesis using assms get_notes_any[OF assms] by simp
next
  case (GetNote n)
  then show ?thesis using assms get_notes_any[OF assms] by (simp add: get_part_000)
next
  case (PutNote n t)
  then show ?thesis using assms by (simp add: put_part_000 spec_update_absent serve_respond)
next
  case (PostWrite n t)
  then show ?thesis using assms by (simp add: post_part_000 spec_create_def)
next
  case (DeleteNote n)
  then show ?thesis
    using assms by (simp add: delete_part_000 spec_delete_def filter_absent serve_respond)
qed

lemma store_route_Lab_5:
  assumes "cache d = Some (store_json ns)" and "distinct (map name ns)"
  shows "store (serve (route_Lab_5 q) d) =
     (if writable d
      then d\<lparr>cache := Some (store_json (if reaches_route q then spec_effect q ns else ns))\<rparr>
      else d)"
proof (cases q)
  case GetNotes
  then show ?thesis using assms get_notes_any[OF assms(1)] by simp
next
  case (GetNote n)
  then show ?thesis
    using assms(1) get_notes_any[OF assms(1)] by (simp add: get_Lab_5 split: list.splits)
next
  case (PutNote n t)
  then show ?thesis using assms by (simp add: put_Lab_5 spec_update_absent serve_respond)
next
  case (PostWrite n t)
  then show ?thesis using assms(1) by (simp add: post_Lab_5 spec_create_def)
next
  case (DeleteNote n)
  then show ?thesis
    using assms(1) by (simp add: delete_Lab_5 spec_delete_def filter_absent serve_respond)
qed

lemma store_either:
  assumes "app = app_Lab_5 lim \<or> app = app_part_000 lim"
    and "cache d = Some (store_json ns)" and "distinct (map name ns)"
  shows "store (serve (app q) d) =
     (if writable d
      then d\<lparr>cache := Some (store_json (if admitted lim q then spec_effect q ns else ns))\<rparr>
      else d)"
proof (cases "lim q")
  case None
  then show ?thesis
    using assms store_route_Lab_5[OF assms(2,3), of q] store_route_part_000[OF assms(2), of q]
    by (auto simp: app_Lab_5_def app_part_000_def admitted_def)
next
  case (Some refusal)
  then show ?thesis
    using assms(1,2) by (auto simp: app_Lab_5_def app_part_000_def admitted_def serve_respond)
qed

lemma serve_all_replay:
  assumes "app = app_Lab_5 lim \<or> app = app_part_000 lim"
  shows "cache d = Some (store_json ns) \<Longrightarrow> distinct (map name ns) \<Longrightarrow>
     serve_all app d qs =
       (if writable d
        then d\<lparr>cache := Some (store_json (spec_replay (filter (admitted lim) qs) ns))\<rparr>
        else d)"
proof (induction qs arbitrary: d ns)
  case Nil
  then show ?case by simp
next
  case (Cons q qs)
  let ?ns = "if admitted lim q then spec_effect q ns else ns"
  have dist: "distinct (map name ?ns)"
    using Cons.prems(2) by (simp add: distinct_spec_effect)
  show ?case
  proof (cases "writable d")
    case True
    let ?d = "d\<lparr>cache := Some (store_json ?ns)\<rparr>"
    have step: "store (serve (app q) d) = ?d"
      using store_either[OF assms Cons.prems] True by simp
    have "serve_all app ?d qs =
        (if writable ?d
         then ?d\<lparr>cache := Some (store_json (spec_replay (filter (admitted lim) qs) ?ns))\<rparr>
         else ?d)"
      using dist by (intro Cons.IH) simp_all
    then show ?thesis
      using True step by simp
  next
    case False
    have step: "store (serve (app q) d) = d"
      using store_either[OF assms Cons.prems] False by simp
    have "serve_all app d qs =
        (if writable d
         then d\<lparr>cache := Some (store_json (spec_replay (filter (admitted lim) qs) ns))\<rparr>
         else d)"
      by (rule Cons.IH) (simp_all add: Cons.prems)
    then show ?thesis
      using False step by simp
  qed
qed

lemma length_filter_distinct:
  "distinct (map name ns) \<Longrightarrow> n \<in> set (map name ns) \<Longrightarrow>
   Suc (length (filter (\<lambda>x. name x \<noteq> n) ns)) = length ns"
proof (induction ns)
  case Nil
  then show ?case by simp
next
  case (Cons a ns)
  show ?case
  proof (cases "name a = n")
    case True
    with Cons.prems have "n \<notin> set (map name ns)" by auto
    then show ?thesis using True by (simp add: filter_absent)
  next
    case False
    with Cons show ?thesis by auto
  qed
qed

lemma find_after_delete: "find (\<lambda>x. name x = n) (filter (\<lambda>x. name x \<noteq> n) ns) = None"
  by (induction ns) auto

lemma get_either:
  assumes "app = app_Lab_5 lim \<or> app = app_part_000 lim"
    and "lim (GetNote n) = None" and "n \<noteq> []"
    and "cache d = Some (store_json ns)"
  shows "wire (events (serve (app (GetNote n)) d)) =
     Some (case find (\<lambda>x. name x = n) ns of
             Some x \<Rightarrow> \<lparr>status = 200, ctype = Some ''text'', body = Body (Some (JStr (text x)))\<rparr>
           | None \<Rightarrow> \<lparr>status = 404, ctype = None, body = NoBody\<rparr>)"
proof -
  have "filter (\<lambda>x. name x = n) ns = [] \<Longrightarrow> find (\<lambda>x. name x = n) ns = None"
    by (induction ns) (auto split: if_splits)
  moreover have "filter (\<lambda>x. name x = n) ns = y # ys \<Longrightarrow> find (\<lambda>x. name x = n) ns = Some y"
    for y ys
    by (induction ns) (auto split: if_splits)
  ultimately show ?thesis
    using assms
    by (auto simp: app_Lab_5_def app_part_000_def get_Lab_5 get_part_000 split: list.splits)
qed

lemma empty_store_json: "cache empty_store = Some (store_json []) \<and> writable empty_store"
  by (simp add: empty_store_def store_json_def JSON_stringify_def)

lemma unreadable_part_000:
  assumes "cache d = None" and "lim q = None"
  shows "serve (app_part_000 lim q) d =
     (if reaches_route q \<or> q = GetNote [] then
        \<lparr>store = d,
         events = [Respond \<lparr>status = 500, ctype = None,
                            body = Body (Some (JStr ''Internal server error''))\<rparr>],
         unhandled = []\<rparr>
      else \<lparr>store = d, events = [Respond (error_page 404)], unhandled = []\<rparr>)"
  using assms
  by (cases q)
     (simp_all add: app_part_000_def respond_def get_notes_part_000_def
       get_notes_name_part_000_def put_notes_name_part_000_def post_write_part_000_def
       delete_notes_name_part_000_def prims)

lemma unreadable_Lab_5:
  assumes "cache d = None" and "lim q = None"
  shows "serve (app_Lab_5 lim q) d =
     (if reaches_route q \<or> q = GetNote [] then \<lparr>store = d, events = [], unhandled = [IOError]\<rparr>
      else \<lparr>store = d, events = [Respond (error_page 404)], unhandled = []\<rparr>)"
  using assms
  by (cases q)
     (simp_all add: app_Lab_5_def respond_def get_notes_Lab_5_def get_notes_name_Lab_5_def
       put_notes_name_Lab_5_def post_write_Lab_5_def delete_notes_name_Lab_5_def prims)

lemma default_limits_small [simp]:
  "default_limits GetNotes = None"
  "length n \<le> 16384 \<Longrightarrow> default_limits (GetNote n) = None"
  "length n \<le> 16384 \<Longrightarrow> default_limits (DeleteNote n) = None"
  "length n \<le> 16384 \<Longrightarrow> length t \<le> 102400 \<Longrightarrow> default_limits (PutNote n t) = None"
  "length n < 1048576 \<Longrightarrow> length t < 1048576 \<Longrightarrow> default_limits (PostWrite n t) = None"
  by (simp_all add: default_limits_def)

text \<open>
  Every request to \<^verbatim>\<open>src/unnamed/part_000\<close> is answered exactly once and leaves no
  rejection unhandled, whatever the request, the limits and the disk.
\<close>

lemma responses_append [simp]: "responses (es @ fs) = responses es @ responses fs"
  by (induction es rule: responses.induct) simp_all

lemma part_000_responds_once:
  "length (responses (events (serve (app_part_000 lim q) d))) = 1 \<and>
   unhandled (serve (app_part_000 lim q) d) = []"
proof (cases "lim q")
  case None
  then show ?thesis
    by (cases q)
       (auto simp: app_part_000_def respond_def get_notes_part_000_def
         get_notes_name_part_000_def put_notes_name_part_000_def post_write_part_000_def
         delete_notes_name_part_000_def prims
         split: sum.splits option.splits prod.splits if_splits)
next
  case (Some refusal)
  then show ?thesis
    by (simp add: app_part_000_def serve_respond)
qed

text \<open>
  The end-to-end scenario of the specification: create \<^verbatim>\<open>a\<close>, get it, update it, get
  it, delete it, get it. Both variants answer 201, 200 \<^verbatim>\<open>hello\<close>, 201, 200
  \<^verbatim>\<open>world\<close>, 200, 404.
\<close>

lemma end_to_end:
  assumes "app = app_Lab_5 default_limits \<or> app = app_part_000 default_limits"
  shows "serve_wire app empty_store
      [PostWrite ''a'' ''hello'', GetNote ''a'', PutNote ''a'' ''world'', GetNote ''a'',
       DeleteNote ''a'', GetNote ''a''] =
     [Some \<lparr>status = 201, ctype = None, body = NoBody\<rparr>,
      Some \<lparr>status = 200, ctype = Some ''text'', body = Body (Some (JStr ''hello''))\<rparr>,
      Some \<lparr>status = 201, ctype = None, body = NoBody\<rparr>,
      Some \<lparr>status = 200, ctype = Some ''text'', body = Body (Some (JStr ''world''))\<rparr>,
      Some \<lparr>status = 200, ctype = None, body = NoBody\<rparr>,
      Some \<lparr>status = 404, ctype = None, body = NoBody\<rparr>]"
proof -
  have e: "cache empty_store = Some (store_json [])" "writable empty_store"
    using empty_store_json by simp_all
  show ?thesis
    using assms e
    by (auto simp: app_Lab_5_def app_part_000_def default_limits_def
        post_Lab_5 get_Lab_5 put_Lab_5 delete_Lab_5
        post_part_000 get_part_000 put_part_000 delete_part_000)
qed

section \<open>Claim C1: update\<close>

text \<open>
  C1. For every request \<^verbatim>\<open>PUT /notes/:name\<close> the handler scans the store for a note with
  the name; if one is found it replaces that note's text with the request body, rewrites
  the store and responds 201 after the write completes; if none is found it responds 404;
  in either case it resolves the response exactly once.

  \<^verbatim>\<open>src/unnamed/part_000\<close> does so (lemma \<open>put_part_000\<close>: the events of a
  match are the write, its completion, and the one response 201; lemma
  \<open>part_000_responds_once\<close>). \<^verbatim>\<open>src/Lab_5.js\<close>
  does not: on a store holding the one note \<^verbatim>\<open>a\<close>, \<^verbatim>\<open>PUT /notes/a\<close> starts the
  write, ends the response with 201 before the write completes, falls out of the loop and
  ends the response a second time with 404.
\<close>

theorem C1_put_Lab_5_ends_twice:
  "serve (put_notes_name_Lab_5 ''a'' ''y'')
      \<lparr>cache = Some (store_json [\<lparr>name = ''a'', text = ''x''\<rparr>]), writable = True\<rparr> =
     \<lparr>store = \<lparr>cache = Some (store_json [\<lparr>name = ''a'', text = ''y''\<rparr>]), writable = True\<rparr>,
      events = [WriteBegin (store_json [\<lparr>name = ''a'', text = ''y''\<rparr>]),
                Respond \<lparr>status = 201, ctype = None, body = NoBody\<rparr>,
                Respond \<lparr>status = 404, ctype = None, body = NoBody\<rparr>,
                WriteDone],
      unhandled = []\<rparr>"
  by (simp add: put_Lab_5)

section \<open>Claim C2: a store file that is not an array of notes\<close>

text \<open>
  C2. For every store file whose content is not a valid JSON array of Note objects, every
  handler that reads the store fails its JSON parse and the request surfaces as an
  internal error (status 500); in particular this holds for the list endpoint
  \<^verbatim>\<open>GET /notes\<close>.

  As stated this fails. The list endpoint of both variants sends the bytes it read without
  parsing them, with status 200; and a file holding the JSON array \<^verbatim>\<open>[1]\<close>, which is
  no array of notes, parses, and \<^verbatim>\<open>GET /notes/x\<close> answers it with 404.
\<close>

theorem C2_counterexample:
  "serve get_notes_part_000 \<lparr>cache = Some (NotJSON ''oops''), writable = True\<rparr> =
     \<lparr>store = \<lparr>cache = Some (NotJSON ''oops''), writable = True\<rparr>,
      events = [Respond \<lparr>status = 200, ctype = Some ''json'', body = Raw (NotJSON ''oops'')\<rparr>],
      unhandled = []\<rparr> \<and>
   serve get_notes_Lab_5 \<lparr>cache = Some (NotJSON ''oops''), writable = True\<rparr> =
     \<lparr>store = \<lparr>cache = Some (NotJSON ''oops''), writable = True\<rparr>,
      events = [Respond \<lparr>status = 200, ctype = Some ''json'', body = Raw (NotJSON ''oops'')\<rparr>],
      unhandled = []\<rparr> \<and>
   serve (get_notes_name_part_000 ''x'') \<lparr>cache = Some (JSONText (JArr [JNum 1])), writable = True\<rparr> =
     \<lparr>store = \<lparr>cache = Some (JSONText (JArr [JNum 1])), writable = True\<rparr>,
      events = [Respond \<lparr>status = 404, ctype = None, body = NoBody\<rparr>],
      unhandled = []\<rparr>"
  by (simp add: get_notes_part_000_def get_notes_Lab_5_def get_notes_name_part_000_def prims
      array_find_def name_is_def)

text \<open>
  C2, amended. For every store file whose content is not JSON, or is the JSON of a value
  that is not an array, each handler of \<^verbatim>\<open>src/unnamed/part_000\<close> that parses the store
  (get, update, create, delete) responds 500, once, and writes nothing; the list endpoint
  of either variant parses nothing and responds 200 with the content as it is.
\<close>

theorem C2_unscannable_store:
  assumes "cache d = Some b" and "not_an_array b"
  shows "serve (get_notes_name_part_000 n) d =
           \<lparr>store = d,
            events = [Respond \<lparr>status = 500, ctype = None,
                               body = Body (Some (JStr ''Internal server error''))\<rparr>],
            unhandled = []\<rparr> \<and>
         serve (put_notes_name_part_000 n t) d =
           \<lparr>store = d,
            events = [Respond \<lparr>status = 500, ctype = None,
                               body = Body (Some (JStr ''Internal server error''))\<rparr>],
            unhandled = []\<rparr> \<and>
         serve (post_write_part_000 n t) d =
           \<lparr>store = d,
            events = [Respond \<lparr>status = 500, ctype = None,
                               body = Body (Some (JStr ''Internal server error''))\<rparr>],
            unhandled = []\<rparr> \<and>
         serve (delete_notes_name_part_000 n) d =
           \<lparr>store = d,
            events = [Respond \<lparr>status = 500, ctype = None,
                               body = Body (Some (JStr ''Internal server error''))\<rparr>],
            unhandled = []\<rparr> \<and>
         serve get_notes_part_000 d =
           \<lparr>store = d,
            events = [Respond \<lparr>status = 200, ctype = Some ''json'', body = Raw b\<rparr>],
            unhandled = []\<rparr> \<and>
         serve get_notes_Lab_5 d =
           \<lparr>store = d,
            events = [Respond \<lparr>status = 200, ctype = Some ''json'', body = Raw b\<rparr>],
            unhandled = []\<rparr>"
proof -
  have scan: "array_find p v = Inl TypeError \<and> array_some p v = Inl TypeError \<and>
      array_filter p v = Inl TypeError" if "b = JSONText v" for p v
    using assms(2) that
    by (cases v) (simp_all add: not_an_array_def array_find_def array_some_def array_filter_def)
  have parse: "JSON_parse b = Inl SyntaxError \<or> (\<exists>v. b = JSONText v \<and> JSON_parse b = Inr v)"
    by (cases b) (simp_all add: JSON_parse_def)
  have "serve (get_notes_name_part_000 n) d =
           \<lparr>store = d,
            events = [Respond \<lparr>status = 500, ctype = None,
                               body = Body (Some (JStr ''Internal server error''))\<rparr>],
            unhandled = []\<rparr>"
    using assms(1) parse scan
    by (auto simp: get_notes_name_part_000_def then_p_def catch_p_def lift_def readFile_def
        res_send_def headersSent_def internal_error_def serve_def)
  moreover have "serve (put_notes_name_part_000 n t) d =
           \<lparr>store = d,
            events = [Respond \<lparr>status = 500, ctype = None,
                               body = Body (Some (JStr ''Internal server error''))\<rparr>],
            unhandled = []\<rparr>"
    using assms(1) parse scan
    by (auto simp: put_notes_name_part_000_def then_p_def catch_p_def lift_def readFile_def
        res_send_def headersSent_def internal_error_def serve_def)
  moreover have "serve (post_write_part_000 n t) d =
           \<lparr>store = d,
            events = [Respond \<lparr>status = 500, ctype = None,
                               body = Body (Some (JStr ''Internal server error''))\<rparr>],
            unhandled = []\<rparr>"
    using assms(1) parse scan
    by (auto simp: post_write_part_000_def then_p_def catch_p_def lift_def readFile_def
        res_send_def headersSent_def internal_error_def serve_def)
  moreover have "serve (delete_notes_name_part_000 n) d =
           \<lparr>store = d,
            events = [Respond \<lparr>status = 500, ctype = None,
                               body = Body (Some (JStr ''Internal server error''))\<rparr>],
            unhandled = []\<rparr>"
    using assms(1) parse scan
    by (auto simp: delete_notes_name_part_000_def then_p_def catch_p_def lift_def readFile_def
        res_send_def headersSent_def internal_error_def serve_def)
  ultimately show ?thesis
    using get_notes_any[OF assms(1)] by simp
qed

theorem C2_witness:
  "not_an_array (NotJSON ''oops'') \<and> not_an_array (JSONText (JObj [])) \<and>
   serve (delete_notes_name_part_000 ''a'') \<lparr>cache = Some (NotJSON ''oops''), writable = True\<rparr> =
     \<lparr>store = \<lparr>cache = Some (NotJSON ''oops''), writable = True\<rparr>,
      events = [Respond \<lparr>status = 500, ctype = None,
                         body = Body (Some (JStr ''Internal server error''))\<rparr>],
      unhandled = []\<rparr> \<and>
   serve (get_notes_name_part_000 ''a'') \<lparr>cache = Some (JSONText (JObj [])), writable = True\<rparr> =
     \<lparr>store = \<lparr>cache = Some (JSONText (JObj [])), writable = True\<rparr>,
      events = [Respond \<lparr>status = 500, ctype = None,
                         body = Body (Some (JStr ''Internal server error''))\<rparr>],
      unhandled = []\<rparr>"
  using C2_unscannable_store[of "\<lparr>cache = Some (NotJSON ''oops''), writable = True\<rparr>"
      "NotJSON ''oops''" "''a''" "''t''"]
    C2_unscannable_store[of "\<lparr>cache = Some (JSONText (JObj [])), writable = True\<rparr>"
      "JSONText (JObj [])" "''a''" "''t''"]
  by (simp add: not_an_array_def)

section \<open>Claim C3: create\<close>

text \<open>
  C3. For every request \<^verbatim>\<open>POST /write\<close> with the form fields \<^verbatim>\<open>note_name\<close> and
  \<^verbatim>\<open>note\<close>: if some note of the store has that name, the handler responds 400 and the
  store is unchanged; otherwise it appends the new note at the end of the store, rewrites the
  file, and responds 201 after the write completes.

  \<^verbatim>\<open>src/unnamed/part_000\<close> does so (lemma \<open>post_part_000\<close>). \<^verbatim>\<open>src/Lab_5.js\<close>
  refuses a duplicate and appends a new note as claimed (lemma \<open>post_Lab_5\<close>), but it
  responds 201 right after starting the write, before the write completes, and also when
  the write then fails. On the empty store:
\<close>

theorem C3_post_Lab_5_responds_before_write:
  "serve (post_write_Lab_5 ''a'' ''hello'') empty_store =
     \<lparr>store = \<lparr>cache = Some (store_json [\<lparr>name = ''a'', text = ''hello''\<rparr>]), writable = True\<rparr>,
      events = [WriteBegin (store_json [\<lparr>name = ''a'', text = ''hello''\<rparr>]),
                Respond \<lparr>status = 201, ctype = None, body = NoBody\<rparr>,
                WriteDone],
      unhandled = []\<rparr>"
  using post_Lab_5[of empty_store "[]" "''a''" "''hello''"] empty_store_json
  by (simp add: empty_store_def)

section \<open>Claim C4: delete, then get\<close>

text \<open>
  C4. For every store whose notes have distinct names, one of them named \<open>n\<close>,
  \<^verbatim>\<open>DELETE /notes/:n\<close> responds 200, the resulting store is exactly one note
  shorter, and a following \<^verbatim>\<open>GET /notes/:n\<close> responds 404.

  As stated this fails for a note that the create handler accepts and no request can
  address. A note with the empty name: \<^verbatim>\<open>DELETE /notes/\<close> matches no route, express
  answers 404 and the note stays. A note whose name is too long for the head of a request:
  the HTTP server refuses the request with 431 and the note stays.
\<close>

theorem C4_counterexample:
  "serve (app_Lab_5 default_limits (DeleteNote ''''))
      \<lparr>cache = Some (store_json [\<lparr>name = '''', text = ''x''\<rparr>]), writable = True\<rparr> =
     \<lparr>store = \<lparr>cache = Some (store_json [\<lparr>name = '''', text = ''x''\<rparr>]), writable = True\<rparr>,
      events = [Respond \<lparr>status = 404, ctype = Some ''html'', body = ErrorPage\<rparr>],
      unhandled = []\<rparr> \<and>
   serve (app_part_000 default_limits (DeleteNote ''''))
      \<lparr>cache = Some (store_json [\<lparr>name = '''', text = ''x''\<rparr>]), writable = True\<rparr> =
     \<lparr>store = \<lparr>cache = Some (store_json [\<lparr>name = '''', text = ''x''\<rparr>]), writable = True\<rparr>,
      events = [Respond \<lparr>status = 404, ctype = Some ''html'', body = ErrorPage\<rparr>],
      unhandled = []\<rparr> \<and>
   serve (app_part_000 default_limits (DeleteNote (replicate 20000 CHR ''x'')))
      \<lparr>cache = Some (store_json [\<lparr>name = replicate 20000 CHR ''x'', text = ''x''\<rparr>]),
       writable = True\<rparr> =
     \<lparr>store = \<lparr>cache = Some (store_json [\<lparr>name = replicate 20000 CHR ''x'', text = ''x''\<rparr>]),
               writable = True\<rparr>,
      events = [Respond \<lparr>status = 431, ctype = None, body = NoBody\<rparr>],
      unhandled = []\<rparr>"
  by (simp add: app_Lab_5_def app_part_000_def default_limits_def serve_respond error_page_def)

text \<open>
  C4, amended. For every store whose notes have distinct names, one of them with the
  non-empty name \<open>n\<close>, when the size limits let the two requests pass:
  \<^verbatim>\<open>DELETE /notes/:n\<close> responds 200, the resulting store is exactly one note shorter,
  and a following \<^verbatim>\<open>GET /notes/:n\<close> responds 404. Proved for both variants, on a disk
  that accepts the write.
\<close>

theorem C4_delete_then_get:
  assumes "app = app_Lab_5 lim \<or> app = app_part_000 lim"
    and "n \<noteq> []" and "lim (DeleteNote n) = None" and "lim (GetNote n) = None"
    and "cache d = Some (store_json ns)" and "writable d"
    and "distinct (map name ns)" and "n \<in> set (map name ns)"
  shows "wire (events (serve (app (DeleteNote n)) d)) =
           Some \<lparr>status = 200, ctype = None, body = NoBody\<rparr> \<and>
         store (serve (app (DeleteNote n)) d) = d\<lparr>cache := Some (store_json (spec_delete n ns))\<rparr> \<and>
         Suc (length (spec_delete n ns)) = length ns \<and>
         wire (events (serve (app (GetNote n)) (store (serve (app (DeleteNote n)) d)))) =
           Some \<lparr>status = 404, ctype = None, body = NoBody\<rparr>"
proof -
  let ?d = "d\<lparr>cache := Some (store_json (spec_delete n ns))\<rparr>"
  have del: "wire (events (serve (app (DeleteNote n)) d)) =
           Some \<lparr>status = 200, ctype = None, body = NoBody\<rparr>"
    and st: "store (serve (app (DeleteNote n)) d) = ?d"
    using assms
    by (auto simp: app_Lab_5_def app_part_000_def delete_Lab_5 delete_part_000 spec_delete_def)
  have len: "Suc (length (spec_delete n ns)) = length ns"
    using assms(7,8) by (simp add: spec_delete_def length_filter_distinct)
  have "wire (events (serve (app (GetNote n)) ?d)) =
           Some \<lparr>status = 404, ctype = None, body = NoBody\<rparr>"
    using get_either[OF assms(1,4,2), of ?d "spec_delete n ns"]
    by (simp add: spec_delete_def find_after_delete)
  with del st len show ?thesis by simp
qed

theorem C4_witness:
  "distinct (map name [\<lparr>name = ''a'', text = ''x''\<rparr>, \<lparr>name = ''b'', text = ''y''\<rparr>]) \<and>
   ''a'' \<in> set (map name [\<lparr>name = ''a'', text = ''x''\<rparr>, \<lparr>name = ''b'', text = ''y''\<rparr>]) \<and>
   wire (events (serve (app_Lab_5 default_limits (DeleteNote ''a''))
      \<lparr>cache = Some (store_json [\<lparr>name = ''a'', text = ''x''\<rparr>, \<lparr>name = ''b'', text = ''y''\<rparr>]),
       writable = True\<rparr>)) = Some \<lparr>status = 200, ctype = None, body = NoBody\<rparr> \<and>
   store (serve (app_part_000 default_limits (DeleteNote ''a''))
      \<lparr>cache = Some (store_json [\<lparr>name = ''a'', text = ''x''\<rparr>, \<lparr>name = ''b'', text = ''y''\<rparr>]),
       writable = True\<rparr>) =
     \<lparr>cache = Some (store_json [\<lparr>name = ''b'', text = ''y''\<rparr>]), writable = True\<rparr>"
  using C4_delete_then_get[of "app_Lab_5 default_limits" default_limits "''a''"
      "\<lparr>cache = Some (store_json [\<lparr>name = ''a'', text = ''x''\<rparr>, \<lparr>name = ''b'', text = ''y''\<rparr>]),
        writable = True\<rparr>"
      "[\<lparr>name = ''a'', text = ''x''\<rparr>, \<lparr>name = ''b'', text = ''y''\<rparr>]"]
    C4_delete_then_get[of "app_part_000 default_limits" default_limits "''a''"
      "\<lparr>cache = Some (store_json [\<lparr>name = ''a'', text = ''x''\<rparr>, \<lparr>name = ''b'', text = ''y''\<rparr>]),
        writable = True\<rparr>"
      "[\<lparr>name = ''a'', text = ''x''\<rparr>, \<lparr>name = ''b'', text = ''y''\<rparr>]"]
  by (simp add: spec_delete_def)

section \<open>Claim C5: get by name\<close>

text \<open>
  C5. For every request \<^verbatim>\<open>GET /notes/:name\<close>: if the store has a note with the name,
  the handler responds 200 with content type text and the text of the first such note; if
  none matches, 404; if the read or the parse fails, 500.

  Both variants answer a store of notes as claimed (lemma \<open>get_either\<close>), and
  \<^verbatim>\<open>src/unnamed/part_000\<close> answers a failed read or parse with 500 (lemma
  \<open>unreadable_part_000\<close>, and the amended C2). The promise chain of \<^verbatim>\<open>src/Lab_5.js\<close>
  has no \<^verbatim>\<open>catch\<close>: when the parse fails, no response is sent at all, and the rejection
  stays unhandled.
\<close>

theorem C5_get_Lab_5_no_response:
  "serve (get_notes_name_Lab_5 ''a'') \<lparr>cache = Some (NotJSON ''oops''), writable = True\<rparr> =
     \<lparr>store = \<lparr>cache = Some (NotJSON ''oops''), writable = True\<rparr>,
      events = [], unhandled = [SyntaxError]\<rparr>"
  by (simp add: get_notes_name_Lab_5_def prims)

section \<open>Claim C6: delete of an absent name\<close>




section \<open>Claim C7: create, then get\<close>

text \<open>
  C7. For every store without a note named \<open>n\<close> and every text \<open>t\<close>,
  \<^verbatim>\<open>POST /write\<close> with \<^verbatim>\<open>note_name=n, note=t\<close> followed by \<^verbatim>\<open>GET /notes/:n\<close>
  returns status 200 with body exactly \<open>t\<close>.

  As stated this fails. For the empty name the create succeeds and \<^verbatim>\<open>GET /notes/\<close> is
  served by the list endpoint, which sends the whole array. For a text over the field
  limit of \<^verbatim>\<open>multer\<close> the create is refused with 500 and the get answers 404. For a
  name within the field limit and too long for the head of a request the create succeeds
  and the get is refused with 431.
\<close>

theorem C7_counterexample:
  "serve_wire (app_Lab_5 default_limits) empty_store [PostWrite '''' ''hello'', GetNote ''''] =
     [Some \<lparr>status = 201, ctype = None, body = NoBody\<rparr>,
      Some \<lparr>status = 200, ctype = Some ''json'',
            body = Raw (store_json [\<lparr>name = '''', text = ''hello''\<rparr>])\<rparr>] \<and>
   serve_wire (app_part_000 default_limits) empty_store [PostWrite '''' ''hello'', GetNote ''''] =
     [Some \<lparr>status = 201, ctype = None, body = NoBody\<rparr>,
      Some \<lparr>status = 200, ctype = Some ''json'',
            body = Raw (store_json [\<lparr>name = '''', text = ''hello''\<rparr>])\<rparr>] \<and>
   serve_wire (app_part_000 default_limits) empty_store
      [PostWrite ''a'' (replicate 2097152 CHR ''x''), GetNote ''a''] =
     [Some \<lparr>status = 500, ctype = Some ''html'', body = ErrorPage\<rparr>,
      Some \<lparr>status = 404, ctype = None, body = NoBody\<rparr>] \<and>
   serve_wire (app_part_000 default_limits) empty_store
      [PostWrite (replicate 20000 CHR ''x'') ''hello'', GetNote (replicate 20000 CHR ''x'')] =
     [Some \<lparr>status = 201, ctype = None, body = NoBody\<rparr>,
      Some \<lparr>status = 431, ctype = None, body = NoBody\<rparr>]"
proof -
  have e: "cache empty_store = Some (store_json [])" "writable empty_store"
    using empty_store_json by simp_all
  have big: "default_limits (PostWrite ''a'' (replicate 2097152 CHR ''x'')) = Some (error_page 500)"
    and long: "default_limits (GetNote (replicate 20000 CHR ''x'')) =
        Some \<lparr>status = 431, ctype = None, body = NoBody\<rparr>"
    by (simp_all add: default_limits_def)
  show ?thesis
    using e
    by (simp add: app_Lab_5_def app_part_000_def big long serve_respond error_page_def
        post_Lab_5 post_part_000 get_part_000 get_notes_any)
qed

text \<open>
  C7, amended. For every store without a note named \<open>n\<close>, \<open>n\<close> not empty, and every
  text \<open>t\<close>, when the size limits let the two requests pass: \<^verbatim>\<open>POST /write\<close> with
  \<^verbatim>\<open>note_name=n, note=t\<close> followed by \<^verbatim>\<open>GET /notes/:n\<close> returns status 200 with body
  exactly \<open>t\<close>. Proved for the create of either variant followed by the get of either
  variant, on a disk that accepts the write.
\<close>

theorem C7_create_then_get:
  assumes "post = app_Lab_5 lim \<or> post = app_part_000 lim"
    and "get = app_Lab_5 lim \<or> get = app_part_000 lim"
    and "n \<noteq> []" and "lim (PostWrite n t) = None" and "lim (GetNote n) = None"
    and "cache d = Some (store_json ns)" and "writable d" and "n \<notin> set (map name ns)"
  shows "wire (events (serve (get (GetNote n)) (store (serve (post (PostWrite n t)) d)))) =
     Some \<lparr>status = 200, ctype = Some ''text'', body = Body (Some (JStr t))\<rparr>"
proof -
  let ?ns = "ns @ [\<lparr>name = n, text = t\<rparr>]"
  let ?d = "d\<lparr>cache := Some (store_json ?ns)\<rparr>"
  have st: "store (serve (post (PostWrite n t)) d) = ?d"
    using assms(1,4,6,7,8) by (auto simp: app_Lab_5_def app_part_000_def post_Lab_5 post_part_000)
  have "find (\<lambda>x. name x = n) ?ns = Some \<lparr>name = n, text = t\<rparr>"
    using assms(8) by (induction ns) auto
  then show ?thesis
    using get_either[OF assms(2,5,3), of ?d ?ns] st by simp
qed

theorem C7_witness:
  "''b'' \<notin> set (map name [\<lparr>name = ''a'', text = ''x''\<rparr>]) \<and>
   wire (events (serve (app_part_000 default_limits (GetNote ''b''))
     (store (serve (app_Lab_5 default_limits (PostWrite ''b'' ''hello''))
        \<lparr>cache = Some (store_json [\<lparr>name = ''a'', text = ''x''\<rparr>]), writable = True\<rparr>)))) =
     Some \<lparr>status = 200, ctype = Some ''text'', body = Body (Some (JStr ''hello''))\<rparr>"
  using C7_create_then_get[of "app_Lab_5 default_limits" default_limits
      "app_part_000 default_limits" "''b''" "''hello''"
      "\<lparr>cache = Some (store_json [\<lparr>name = ''a'', text = ''x''\<rparr>]), writable = True\<rparr>"
      "[\<lparr>name = ''a'', text = ''x''\<rparr>]"]
  by simp

section \<open>Claim C8: listing after a sequence of requests\<close>

text \<open>
  C8. For every sequence of create, update and delete requests served one after the other
  from the empty store, the list endpoint returns the JSON array of the operations'
  cumulative effect in insertion order: a create appends at the end, an update keeps the
  place, a delete does not reorder the others.

  As stated this fails for a sequence with a request that does not reach its handler: after
  creating the note with the empty name, \<^verbatim>\<open>DELETE /notes/\<close> matches no route and the
  note stays listed; an update with a body over the limit of \<^verbatim>\<open>express.text()\<close> is
  refused and the old text stays listed.
\<close>

theorem C8_counterexample:
  "serve_all (app_Lab_5 default_limits) empty_store [PostWrite '''' ''x'', DeleteNote ''''] =
     \<lparr>cache = Some (store_json [\<lparr>name = '''', text = ''x''\<rparr>]), writable = True\<rparr> \<and>
   serve_all (app_part_000 default_limits) empty_store [PostWrite '''' ''x'', DeleteNote ''''] =
     \<lparr>cache = Some (store_json [\<lparr>name = '''', text = ''x''\<rparr>]), writable = True\<rparr> \<and>
   spec_replay [PostWrite '''' ''x'', DeleteNote ''''] [] = [] \<and>
   serve_all (app_part_000 default_limits) empty_store
      [PostWrite ''a'' ''x'', PutNote ''a'' (replicate 200000 CHR ''y'')] =
     \<lparr>cache = Some (store_json [\<lparr>name = ''a'', text = ''x''\<rparr>]), writable = True\<rparr> \<and>
   spec_replay [PostWrite ''a'' ''x'', PutNote ''a'' (replicate 200000 CHR ''y'')] [] =
     [\<lparr>name = ''a'', text = replicate 200000 CHR ''y''\<rparr>]"
proof -
  have e: "cache empty_store = Some (store_json [])" "distinct (map name ([] :: Note list))"
    using empty_store_json by simp_all
  have big: "\<not> admitted default_limits (PutNote ''a'' (replicate 200000 CHR ''y''))"
    by (simp add: admitted_def default_limits_def)
  have small: "admitted default_limits (PostWrite '''' ''x'')"
    "admitted default_limits (PostWrite ''a'' ''x'')"
    "\<not> admitted default_limits (DeleteNote '''')"
    by (simp_all add: admitted_def)
  show ?thesis
    using serve_all_replay[of "app_Lab_5 default_limits" default_limits, OF _ e,
        of "[PostWrite '''' ''x'', DeleteNote '''']"]
      serve_all_replay[of "app_part_000 default_limits" default_limits, OF _ e,
        of "[PostWrite '''' ''x'', DeleteNote '''']"]
      serve_all_replay[of "app_part_000 default_limits" default_limits, OF _ e,
        of "[PostWrite ''a'' ''x'', PutNote ''a'' (replicate 200000 CHR ''y'')]"]
      big small
    by (simp add: empty_store_def spec_create_def spec_delete_def)
qed

text \<open>
  C8, amended. For every sequence of requests served one after the other from the empty
  store, the list endpoint returns the JSON array of the cumulative effect, in insertion
  order, of those requests of the sequence that reached their handlers (\<open>admitted\<close>): a
  create appends at the end, an update keeps the place, a delete does not reorder the
  others; a request that a size limit refuses, and an update or delete with the empty
  name, change nothing. Proved for both variants.
\<close>

theorem C8_listing_after_requests:
  assumes "app = app_Lab_5 lim \<or> app = app_part_000 lim"
  shows "serve_all app empty_store qs =
           \<lparr>cache = Some (store_json (spec_replay (filter (admitted lim) qs) [])),
            writable = True\<rparr> \<and>
         serve (app GetNotes) (serve_all app empty_store qs) =
           \<lparr>store = serve_all app empty_store qs,
            events = [Respond (case lim GetNotes of
                        Some refusal \<Rightarrow> refusal
                      | None \<Rightarrow>
                          \<lparr>status = 200, ctype = Some ''json'',
                           body = Raw (store_json (spec_replay (filter (admitted lim) qs) []))\<rparr>)],
            unhandled = []\<rparr>"
proof -
  have "serve_all app empty_store qs =
      (if writable empty_store
       then empty_store\<lparr>cache := Some (store_json (spec_replay (filter (admitted lim) qs) []))\<rparr>
       else empty_store)"
    using empty_store_json by (intro serve_all_replay[OF assms]) simp_all
  then have st: "serve_all app empty_store qs =
      \<lparr>cache = Some (store_json (spec_replay (filter (admitted lim) qs) [])), writable = True\<rparr>"
    by (simp add: empty_store_def)
  have "cache (serve_all app empty_store qs) =
      Some (store_json (spec_replay (filter (admitted lim) qs) []))"
    by (simp add: st)
  from get_notes_any[OF this] assms st show ?thesis
    by (auto simp: app_Lab_5_def app_part_000_def serve_respond split: option.splits)
qed

theorem C8_witness:
  "serve_all (app_Lab_5 default_limits) empty_store
      [PostWrite ''a'' ''x'', PostWrite ''b'' ''y'', PostWrite ''a'' ''again'', PostWrite ''c'' ''z'',
       PutNote ''b'' ''w'', DeleteNote ''a''] =
     \<lparr>cache = Some (store_json [\<lparr>name = ''b'', text = ''w''\<rparr>, \<lparr>name = ''c'', text = ''z''\<rparr>]),
      writable = True\<rparr> \<and>
   serve (app_part_000 default_limits GetNotes)
     (serve_all (app_part_000 default_limits) empty_store
        [PostWrite ''a'' ''x'', PostWrite ''b'' ''y'', PostWrite ''a'' ''again'',
         PostWrite ''c'' ''z'', PutNote ''b'' ''w'', DeleteNote ''a'']) =
     \<lparr>store = \<lparr>cache = Some (store_json [\<lparr>name = ''b'', text = ''w''\<rparr>,
                                          \<lparr>name = ''c'', text = ''z''\<rparr>]),
               writable = True\<rparr>,
      events = [Respond \<lparr>status = 200, ctype = Some ''json'',
                         body = Raw (store_json [\<lparr>name = ''b'', text = ''w''\<rparr>,
                                                 \<lparr>name = ''c'', text = ''z''\<rparr>])\<rparr>],
      unhandled = []\<rparr>"
  using C8_listing_after_requests[of "app_Lab_5 default_limits" default_limits
      "[PostWrite ''a'' ''x'', PostWrite ''b'' ''y'', PostWrite ''a'' ''again'', PostWrite ''c'' ''z'',
        PutNote ''b'' ''w'', DeleteNote ''a'']"]
    C8_listing_after_requests[of "app_part_000 default_limits" default_limits
      "[PostWrite ''a'' ''x'', PostWrite ''b'' ''y'', PostWrite ''a'' ''again'', PostWrite ''c'' ''z'',
        PutNote ''b'' ''w'', DeleteNote ''a'']"]
  by (auto simp: admitted_def spec_create_def spec_delete_def simp del: serve_all.simps)

section \<open>Claim C9: names stay distinct\<close>

text \<open>
  C9. Under sequential execution, every store reached from the empty store by create,
  update and delete requests holds notes of pairwise distinct names. Proved for both
  variants, for every function of limits, and for a disk that accepts writes as well as
  one that refuses them.
\<close>

theorem C9_names_stay_distinct:
  assumes "app = app_Lab_5 lim \<or> app = app_part_000 lim" and "cache d = Some (store_json [])"
  shows "\<exists>ns. cache (serve_all app d qs) = Some (store_json ns) \<and> distinct (map name ns)"
proof -
  have "serve_all app d qs =
      (if writable d
       then d\<lparr>cache := Some (store_json (spec_replay (filter (admitted lim) qs) []))\<rparr> else d)"
    using assms(2) by (intro serve_all_replay[OF assms(1)]) simp_all
  moreover have "distinct (map name (spec_replay (filter (admitted lim) qs) []))"
    by (rule distinct_spec_replay) simp
  ultimately show ?thesis
    using assms(2) by (cases "writable d") auto
qed

theorem C9_witness:
  "\<exists>ns. cache (serve_all (app_Lab_5 default_limits) empty_store
            [PostWrite ''a'' ''x'', PostWrite ''a'' ''y'', PutNote ''a'' ''z'', DeleteNote ''b'']) =
          Some (store_json ns) \<and> distinct (map name ns)"
  using C9_names_stay_distinct[of "app_Lab_5 default_limits" default_limits empty_store
      "[PostWrite ''a'' ''x'', PostWrite ''a'' ''y'', PutNote ''a'' ''z'', DeleteNote ''b'']"]
    empty_store_json
  by simp

section \<open>Claim C10: delete removes every note of the name\<close>

text \<open>
  C10. For every store, also one in which several notes have the name \<open>n\<close>,
  \<^verbatim>\<open>DELETE /notes/:n\<close> removes every note named \<open>n\<close>, so that the resulting store
  has none.

  As stated this fails for the names that no request can address: \<^verbatim>\<open>DELETE /notes/\<close>
  matches no route and a note with the empty name stays; a name too long for the head of
  a request has its request refused with 431 and the note stays.
\<close>

theorem C10_counterexample:
  "cache (store (serve (app_Lab_5 default_limits (DeleteNote ''''))
      \<lparr>cache = Some (store_json [\<lparr>name = '''', text = ''x''\<rparr>, \<lparr>name = ''b'', text = ''y''\<rparr>]),
       writable = True\<rparr>)) =
     Some (store_json [\<lparr>name = '''', text = ''x''\<rparr>, \<lparr>name = ''b'', text = ''y''\<rparr>]) \<and>
   cache (store (serve (app_part_000 default_limits (DeleteNote ''''))
      \<lparr>cache = Some (store_json [\<lparr>name = '''', text = ''x''\<rparr>, \<lparr>name = ''b'', text = ''y''\<rparr>]),
       writable = True\<rparr>)) =
     Some (store_json [\<lparr>name = '''', text = ''x''\<rparr>, \<lparr>name = ''b'', text = ''y''\<rparr>]) \<and>
   cache (store (serve (app_part_000 default_limits (DeleteNote (replicate 20000 CHR ''x'')))
      \<lparr>cache = Some (store_json [\<lparr>name = replicate 20000 CHR ''x'', text = ''x''\<rparr>]),
       writable = True\<rparr>)) =
     Some (store_json [\<lparr>name = replicate 20000 CHR ''x'', text = ''x''\<rparr>])"
  by (simp add: app_Lab_5_def app_part_000_def default_limits_def serve_respond)

text \<open>
  C10, amended. For every store, also one in which several notes have the name \<open>n\<close>,
  \<open>n\<close> not empty, when the size limits let the request pass: \<^verbatim>\<open>DELETE /notes/:n\<close>
  leaves a store with no note named \<open>n\<close>, the notes of other names in their order.
  Proved for both variants, on a disk that accepts the write.
\<close>

theorem C10_delete_removes_every_match:
  assumes "app = app_Lab_5 lim \<or> app = app_part_000 lim"
    and "n \<noteq> []" and "lim (DeleteNote n) = None"
    and "cache d = Some (store_json ns)" and "writable d"
  shows "cache (store (serve (app (DeleteNote n)) d)) = Some (store_json (spec_delete n ns)) \<and>
         n \<notin> set (map name (spec_delete n ns))"
  using assms
  by (auto simp: app_Lab_5_def app_part_000_def delete_Lab_5 delete_part_000 spec_delete_def
      filter_absent)

theorem C10_witness:
  "cache (store (serve (app_Lab_5 default_limits (DeleteNote ''a''))
      \<lparr>cache = Some (store_json [\<lparr>name = ''a'', text = ''x''\<rparr>, \<lparr>name = ''b'', text = ''y''\<rparr>,
                                 \<lparr>name = ''a'', text = ''z''\<rparr>]), writable = True\<rparr>)) =
     Some (store_json [\<lparr>name = ''b'', text = ''y''\<rparr>]) \<and>
   cache (store (serve (app_part_000 default_limits (DeleteNote ''a''))
      \<lparr>cache = Some (store_json [\<lparr>name = ''a'', text = ''x''\<rparr>, \<lparr>name = ''b'', text = ''y''\<rparr>,
                                 \<lparr>name = ''a'', text = ''z''\<rparr>]), writable = True\<rparr>)) =
     Some (store_json [\<lparr>name = ''b'', text = ''y''\<rparr>])"
  using C10_delete_removes_every_match[of "app_Lab_5 default_limits" default_limits "''a''"
      "\<lparr>cache = Some (store_json [\<lparr>name = ''a'', text = ''x''\<rparr>, \<lparr>name = ''b'', text = ''y''\<rparr>,
                                  \<lparr>name = ''a'', text = ''z''\<rparr>]), writable = True\<rparr>"
      "[\<lparr>name = ''a'', text = ''x''\<rparr>, \<lparr>name = ''b'', text = ''y''\<rparr>, \<lparr>name = ''a'', text = ''z''\<rparr>]"]
    C10_delete_removes_every_match[of "app_part_000 default_limits" default_limits "''a''"
      "\<lparr>cache = Some (store_json [\<lparr>name = ''a'', text = ''x''\<rparr>, \<lparr>name = ''b'', text = ''y''\<rparr>,
                                  \<lparr>name = ''a'', text = ''z''\<rparr>]), writable = True\<rparr>"
      "[\<lparr>name = ''a'', text = ''x''\<rparr>, \<lparr>name = ''b'', text = ''y''\<rparr>, \<lparr>name = ''a'', text = ''z''\<rparr>]"]
  by (simp add: spec_delete_def)

end
